theory Spec2Isabelle
  imports Complex_Main
begin

section \<open>Runtime values and type specifications\<close>

text \<open>
  The validator of \<^verbatim>\<open>src/pytest_assert_type/validator.py\<close> decides whether a Python
  runtime value conforms to a typing specification.  The model follows CPython 3.11 and
  later (where \<^verbatim>\<open>typing.Any\<close> is a class and \<^verbatim>\<open>get_args(tuple[()])\<close> is empty).

  Exceptions are values: the exceptions that the modelled operations can raise besides
  the validator's own.
\<close>

datatype err = AttributeError | TypeError | IndexError | KeyError | NameError

text \<open>
  Class objects: the builtin classes the validator names, and user classes, which are
  described by a class table.
\<close>

datatype cref =
    CBool | CInt | CFloat | CStr | CBytes | CNoneType
  | CList | CSet | CFrozenset | CDict | CTuple
  | CUser nat

text \<open>The values that can stand inside \<^verbatim>\<open>typing.Literal[...]\<close>.\<close>

datatype plit = LNone | LBool bool | LInt int | LStr string | LBytes string

text \<open>
  A union is either a \<^verbatim>\<open>types.UnionType\<close> (written \<^verbatim>\<open>A | B\<close> between classes and
  builtin aliases) or a \<^verbatim>\<open>typing.Union\<close>.
\<close>

datatype ukind = Pep604 | TypingUnion

text \<open>
  The objects that can be passed as \<^verbatim>\<open>expected_type\<close>:
  \<^item> \<open>TAny\<close> is \<^verbatim>\<open>typing.Any\<close>;
  \<^item> \<open>TClass c\<close> is the class object \<open>c\<close>;
  \<^item> \<open>TNewType name module t\<close> is \<^verbatim>\<open>typing.NewType(name, t)\<close> created in \<open>module\<close>;
  \<^item> \<open>TAlias origin args\<close> is the parameterized alias \<^verbatim>\<open>origin[args]\<close>: a
    \<^verbatim>\<open>types.GenericAlias\<close> when the origin is a builtin class, a typing alias of a user
    generic class otherwise;
  \<^item> \<open>TUnion k args\<close>, \<open>TLiteral values\<close>, \<open>TTypeVar name\<close> (an invariant type variable);
  \<^item> \<open>TEllipsis\<close> is the object \<^verbatim>\<open>...\<close>, which stands in \<^verbatim>\<open>tuple[T, ...]\<close>;
  \<^item> \<open>TOther r\<close> is any other object, of which only its \<^verbatim>\<open>repr\<close> \<open>r\<close> is known.
\<close>

datatype tspec =
    TAny
  | TClass cref
  | TNewType string string tspec
  | TAlias cref "tspec list"
  | TUnion ukind "tspec list"
  | TLiteral "plit list"
  | TTypeVar string
  | TEllipsis
  | TOther string

text \<open>
  Runtime values.  A finite float is the rational it denotes.  Sets and dictionaries keep
  their iteration order.  \<open>VObj c attrs\<close> is an instance of the user class \<open>c\<close> with the
  instance attributes \<open>attrs\<close>; the user classes that have instances derive from
  \<^verbatim>\<open>object\<close> and from user classes only, so an instance of a subclass of \<^verbatim>\<open>int\<close> or of
  \<^verbatim>\<open>list\<close> is not among these values.
\<close>

datatype pval =
    VNone
  | VBool bool
  | VInt int
  | VFloat rat
  | VStr string
  | VBytes string
  | VList "pval list"
  | VSet "pval list"
  | VFrozenset "pval list"
  | VTuple "pval list"
  | VDict "(pval \<times> pval) list"
  | VObj nat "(string \<times> pval) list"

text \<open>
  What the validator reads from a user class:
  \<^item> \<open>cname\<close>: \<^verbatim>\<open>__name__\<close>; \<open>cqualified\<close>: the module-qualified name that \<^verbatim>\<open>repr\<close> prints
    when the class stands inside an alias or a union;
  \<^item> \<open>csupers\<close>: its proper superclasses among the user classes;
  \<^item> \<open>cvirtual\<close>: the builtin classes whose instances pass its instance check (the
    classes registered with an abstract base class or accepted by its subclass hook, as
    \<^verbatim>\<open>list\<close> is for \<^verbatim>\<open>collections.abc.Sequence\<close>);
  \<^item> \<open>cuncheckable\<close>: \<^verbatim>\<open>isinstance\<close> against the class raises \<^verbatim>\<open>TypeError\<close>: a \<^verbatim>\<open>Protocol\<close>
    class that is not \<^verbatim>\<open>runtime_checkable\<close>, or a class made by \<^verbatim>\<open>TypedDict\<close>;
  \<^item> \<open>cdataclass\<close>: \<^verbatim>\<open>dataclasses.is_dataclass\<close>; \<open>ctypeddict\<close>: it has \<^verbatim>\<open>__total__\<close> and
    \<^verbatim>\<open>__required_keys__\<close>;
  \<^item> \<open>cparams\<close>: the names of the type variables in \<^verbatim>\<open>__parameters__\<close>;
  \<^item> \<open>cfields\<close>: the names of \<^verbatim>\<open>dataclasses.fields\<close>, in order;
  \<^item> \<open>chints\<close>: the annotations, in order: \<^verbatim>\<open>__annotations__\<close> of a TypedDict, and what
    \<^verbatim>\<open>typing.get_type_hints\<close> returns for a dataclass when it returns;
  \<^item> \<open>chints_error\<close>: the exception that \<^verbatim>\<open>typing.get_type_hints\<close> raises for the class, if
    it raises (\<^verbatim>\<open>NameError\<close> for an annotation that names something undefined);
  \<^item> \<open>crequired\<close>: \<^verbatim>\<open>__required_keys__\<close>.
  The instance check of a class depends on the class of the value only.
\<close>

record class_info =
  cname :: string
  cqualified :: string
  csupers :: "nat list"
  cvirtual :: "cref list"
  cuncheckable :: bool
  cdataclass :: bool
  ctypeddict :: bool
  cparams :: "string list"
  cfields :: "string list"
  chints :: "(string \<times> tspec) list"
  chints_error :: "err option"
  crequired :: "string list"

type_synonym class_table = "nat \<Rightarrow> class_info"

subsection \<open>Classes of values\<close>

fun type_of :: "pval \<Rightarrow> cref" where
  "type_of VNone = CNoneType"
| "type_of (VBool b) = CBool"
| "type_of (VInt i) = CInt"
| "type_of (VFloat r) = CFloat"
| "type_of (VStr s) = CStr"
| "type_of (VBytes s) = CBytes"
| "type_of (VList xs) = CList"
| "type_of (VSet xs) = CSet"
| "type_of (VFrozenset xs) = CFrozenset"
| "type_of (VTuple xs) = CTuple"
| "type_of (VDict kvs) = CDict"
| "type_of (VObj c attrs) = CUser c"

text \<open>
  \<^verbatim>\<open>issubclass\<close>: a class is a subclass of itself, \<^verbatim>\<open>bool\<close> is a subclass of \<^verbatim>\<open>int\<close>, a
  user class is a subclass of its superclasses, and a builtin class is a subclass of the
  user classes that take it as a virtual subclass.
\<close>

fun issubclass :: "class_table \<Rightarrow> cref \<Rightarrow> cref \<Rightarrow> bool" where
  "issubclass ct c d =
     (case d of
        CUser n \<Rightarrow>
          (case c of
             CUser m \<Rightarrow> m = n \<or> n \<in> set (csupers (ct m))
           | _ \<Rightarrow> c \<in> set (cvirtual (ct n)))
      | _ \<Rightarrow> c = d \<or> (c = CBool \<and> d = CInt))"

text \<open>The classes against which an instance check raises \<^verbatim>\<open>TypeError\<close>.\<close>

fun uncheckable :: "class_table \<Rightarrow> cref \<Rightarrow> bool" where
  "uncheckable ct (CUser c) = cuncheckable (ct c)"
| "uncheckable ct c = False"

text \<open>
  \<^verbatim>\<open>isinstance(value, cls)\<close>: true at once when \<^verbatim>\<open>cls\<close> is the very class of the value;
  otherwise the instance check of \<^verbatim>\<open>cls\<close>, which raises \<^verbatim>\<open>TypeError\<close> for a \<^verbatim>\<open>Protocol\<close> class
  that is not \<^verbatim>\<open>runtime_checkable\<close> and for a TypedDict class.
\<close>

definition isinstance :: "class_table \<Rightarrow> pval \<Rightarrow> cref \<Rightarrow> err + bool" where
  "isinstance ct v c =
     (if type_of v = c then Inr True
      else if uncheckable ct c then Inl TypeError
      else Inr (issubclass ct (type_of v) c))"

fun is_user :: "cref \<Rightarrow> bool" where
  "is_user (CUser c) = True"
| "is_user c = False"

text \<open>\<^verbatim>\<open>dataclasses.is_dataclass\<close> and \<^verbatim>\<open>_is_typed_dict_class\<close> of a class object.\<close>

fun is_dataclass :: "class_table \<Rightarrow> cref \<Rightarrow> bool" where
  "is_dataclass ct (CUser c) = cdataclass (ct c)"
| "is_dataclass ct c = False"

fun is_typed_dict_class :: "class_table \<Rightarrow> cref \<Rightarrow> bool" where
  "is_typed_dict_class ct (CUser c) = ctypeddict (ct c)"
| "is_typed_dict_class ct c = False"

text \<open>\<^verbatim>\<open>getattr(instance, name)\<close>: raises \<^verbatim>\<open>AttributeError\<close> when the attribute is not set.\<close>

fun getattr :: "pval \<Rightarrow> string \<Rightarrow> err + pval" where
  "getattr (VObj c attrs) name =
     (case map_of attrs name of None \<Rightarrow> Inl AttributeError | Some x \<Rightarrow> Inr x)"
| "getattr v name = Inl AttributeError"


section \<open>Pretty printing\<close>

fun join :: "string \<Rightarrow> string list \<Rightarrow> string" where
  "join sep [] = []"
| "join sep [x] = x"
| "join sep (x # y # ys) = x @ sep @ join sep (y # ys)"

subsection \<open>\<^verbatim>\<open>repr\<close> of literal values\<close>

fun digits10 :: "nat \<Rightarrow> string" where
  "digits10 n =
     (if n < 10 then [char_of (48 + n)] else digits10 (n div 10) @ [char_of (48 + n mod 10)])"

declare digits10.simps [simp del]

definition int_repr :: "int \<Rightarrow> string" where
  "int_repr i = (if i < 0 then CHR ''-'' # digits10 (nat (- i)) else digits10 (nat i))"

definition hex_digit :: "nat \<Rightarrow> char" where
  "hex_digit n = (if n < 10 then char_of (48 + n) else char_of (87 + n))"

text \<open>
  The quote that \<^verbatim>\<open>repr\<close> chooses: the double quote when the text has a single quote and
  no double quote, the single quote otherwise.
\<close>

definition repr_quote :: "string \<Rightarrow> char" where
  "repr_quote s = (if CHR 0x27 \<in> set s \<and> CHR 0x22 \<notin> set s then CHR 0x22 else CHR 0x27)"

text \<open>
  Characters are bytes here, so the \<^verbatim>\<open>repr\<close> of text is the one of CPython for ASCII text;
  in \<^verbatim>\<open>bytes\<close> every byte from 128 on is escaped.
\<close>

definition escape_char :: "bool \<Rightarrow> char \<Rightarrow> char \<Rightarrow> string" where
  "escape_char is_bytes q c =
     (let n = (of_char c :: nat) in
      if c = CHR 0x5C then [CHR 0x5C, CHR 0x5C]
      else if c = q then [CHR 0x5C, q]
      else if n = 9 then [CHR 0x5C, CHR ''t'']
      else if n = 10 then [CHR 0x5C, CHR ''n'']
      else if n = 13 then [CHR 0x5C, CHR ''r'']
      else if n < 32 \<or> n = 127 \<or> (is_bytes \<and> 128 \<le> n)
        then [CHR 0x5C, CHR ''x'', hex_digit (n div 16), hex_digit (n mod 16)]
      else [c])"

definition str_repr :: "string \<Rightarrow> string" where
  "str_repr s = (let q = repr_quote s in q # concat (map (escape_char False q) s) @ [q])"

definition bytes_repr :: "string \<Rightarrow> string" where
  "bytes_repr s = (let q = repr_quote s in CHR ''b'' # q # concat (map (escape_char True q) s) @ [q])"

fun lit_repr :: "plit \<Rightarrow> string" where
  "lit_repr LNone = ''None''"
| "lit_repr (LBool b) = (if b then ''True'' else ''False'')"
| "lit_repr (LInt i) = int_repr i"
| "lit_repr (LStr s) = str_repr s"
| "lit_repr (LBytes s) = bytes_repr s"

subsection \<open>Names of classes\<close>

fun builtin_name :: "cref \<Rightarrow> string" where
  "builtin_name CBool = ''bool''"
| "builtin_name CInt = ''int''"
| "builtin_name CFloat = ''float''"
| "builtin_name CStr = ''str''"
| "builtin_name CBytes = ''bytes''"
| "builtin_name CNoneType = ''NoneType''"
| "builtin_name CList = ''list''"
| "builtin_name CSet = ''set''"
| "builtin_name CFrozenset = ''frozenset''"
| "builtin_name CDict = ''dict''"
| "builtin_name CTuple = ''tuple''"
| "builtin_name (CUser c) = []"

text \<open>\<^verbatim>\<open>cls.__name__\<close>, and the name \<^verbatim>\<open>repr\<close> prints for a class inside an alias or a union.\<close>

fun class_name :: "class_table \<Rightarrow> cref \<Rightarrow> string" where
  "class_name ct (CUser c) = cname (ct c)"
| "class_name ct c = builtin_name c"

fun class_qualified :: "class_table \<Rightarrow> cref \<Rightarrow> string" where
  "class_qualified ct (CUser c) = cqualified (ct c)"
| "class_qualified ct c = builtin_name c"

subsection \<open>\<^verbatim>\<open>repr\<close> of type objects\<close>

text \<open>
  \<open>repr_item\<close> is how CPython prints a type object that stands inside the \<^verbatim>\<open>repr\<close> of an
  alias or of a union: a class by its qualified name, \<^verbatim>\<open>...\<close> for the ellipsis, and
  anything else by its own \<^verbatim>\<open>repr\<close>.  A \<^verbatim>\<open>types.UnionType\<close> prints \<^verbatim>\<open>NoneType\<close> as
  \<^verbatim>\<open>None\<close>; a \<^verbatim>\<open>typing.Union\<close> of a type and \<^verbatim>\<open>NoneType\<close> prints as \<^verbatim>\<open>typing.Optional\<close>.
\<close>

fun repr_item :: "class_table \<Rightarrow> tspec \<Rightarrow> string" where
  "repr_item ct TAny = ''typing.Any''"
| "repr_item ct (TClass c) = class_qualified ct c"
| "repr_item ct (TNewType name modname t) = modname @ ''.'' @ name"
| "repr_item ct (TAlias origin args) =
     class_qualified ct origin @ ''['' @
       (if args = [] then ''()'' else join '', '' (map (repr_item ct) args)) @ '']''"
| "repr_item ct (TUnion Pep604 args) =
     join '' | '' (map (\<lambda>a. if a = TClass CNoneType then ''None'' else repr_item ct a) args)"
| "repr_item ct (TUnion TypingUnion [a, b]) =
     (if a = TClass CNoneType then ''typing.Optional['' @ repr_item ct b @ '']''
      else if b = TClass CNoneType then ''typing.Optional['' @ repr_item ct a @ '']''
      else ''typing.Union['' @ repr_item ct a @ '', '' @ repr_item ct b @ '']'')"
| "repr_item ct (TUnion TypingUnion args) =
     ''typing.Union['' @ join '', '' (map (repr_item ct) args) @ '']''"
| "repr_item ct (TLiteral vs) = ''typing.Literal['' @ join '', '' (map lit_repr vs) @ '']''"
| "repr_item ct (TTypeVar n) = ''~'' @ n"
| "repr_item ct TEllipsis = ''...''"
| "repr_item ct (TOther r) = r"

text \<open>\<^verbatim>\<open>repr(obj)\<close> of a type object on its own.\<close>

definition py_repr :: "class_table \<Rightarrow> tspec \<Rightarrow> string" where
  "py_repr ct t =
     (case t of
        TEllipsis \<Rightarrow> ''Ellipsis''
      | TClass c \<Rightarrow> ''<class '' @ [CHR 0x27] @ class_qualified ct c @ [CHR 0x27] @ ''>''
      | _ \<Rightarrow> repr_item ct t)"

subsection \<open>\<^verbatim>\<open>_pretty_type\<close>\<close>

text \<open>
  The branches of \<^verbatim>\<open>_pretty_type\<close>, in its order: a NewType by its name; a
  \<^verbatim>\<open>types.GenericAlias\<close>; a class by its name; a \<^verbatim>\<open>typing.Union\<close>; a Literal; a
  parameterized user generic; and \<^verbatim>\<open>repr\<close> for the rest.  A \<^verbatim>\<open>types.UnionType\<close> has no
  \<^verbatim>\<open>__origin__\<close>, so \<^verbatim>\<open>_origin_and_args\<close> gives it the origin \<^verbatim>\<open>None\<close> and it is printed by
  \<^verbatim>\<open>repr\<close>.
\<close>

fun pretty_type :: "class_table \<Rightarrow> tspec \<Rightarrow> string" where
  "pretty_type ct (TNewType name modname t) = name"
| "pretty_type ct (TAlias origin args) =
     (let ps = map (pretty_type ct) args in
      if \<not> is_user origin then
        (if origin = CTuple \<and> length args = 2 \<and> args ! 1 = TEllipsis
           then ''tuple['' @ ps ! 0 @ '',...]''
         else if origin \<in> {CList, CSet, CFrozenset} \<and> length args = 1
           then class_name ct origin @ ''['' @ ps ! 0 @ '']''
         else if origin = CDict \<and> length args = 2
           then ''dict['' @ ps ! 0 @ '','' @ ps ! 1 @ '']''
         else if origin = CTuple
           then ''tuple['' @ join '','' ps @ '']''
         else class_name ct origin @ ''['' @ join '','' ps @ '']'')
      else if args \<noteq> [] then class_name ct origin @ ''['' @ join '','' ps @ '']''
      else py_repr ct (TAlias origin args))"
| "pretty_type ct (TClass c) = class_name ct c"
| "pretty_type ct TAny = ''Any''"
| "pretty_type ct (TUnion TypingUnion args) = join '' | '' (map (pretty_type ct) args)"
| "pretty_type ct (TUnion Pep604 args) = py_repr ct (TUnion Pep604 args)"
| "pretty_type ct (TLiteral vs) = ''Literal['' @ join '','' (map lit_repr vs) @ '']''"
| "pretty_type ct (TTypeVar n) = py_repr ct (TTypeVar n)"
| "pretty_type ct TEllipsis = py_repr ct TEllipsis"
| "pretty_type ct (TOther r) = py_repr ct (TOther r)"


section \<open>Operations of the runtime\<close>

subsection \<open>Sequencing with exceptions\<close>

text \<open>
  \<^verbatim>\<open>all(f(x) for x in xs)\<close> and \<^verbatim>\<open>any(f(x) for x in xs)\<close> evaluate from the left and stop at
  the first decisive element; an exception raised before that point propagates.
\<close>

fun all_m :: "('a \<Rightarrow> err + bool) \<Rightarrow> 'a list \<Rightarrow> err + bool" where
  "all_m f [] = Inr True"
| "all_m f (x # xs) =
     (case f x of Inl e \<Rightarrow> Inl e | Inr b \<Rightarrow> if b then all_m f xs else Inr False)"

fun any_m :: "('a \<Rightarrow> err + bool) \<Rightarrow> 'a list \<Rightarrow> err + bool" where
  "any_m f [] = Inr False"
| "any_m f (x # xs) =
     (case f x of Inl e \<Rightarrow> Inl e | Inr b \<Rightarrow> if b then Inr True else any_m f xs)"

text \<open>A list comprehension whose element expression can raise.\<close>

fun map_m :: "('a \<Rightarrow> err + 'b) \<Rightarrow> 'a list \<Rightarrow> err + 'b list" where
  "map_m f [] = Inr []"
| "map_m f (x # xs) =
     (case f x of
        Inl e \<Rightarrow> Inl e
      | Inr y \<Rightarrow> (case map_m f xs of Inl e \<Rightarrow> Inl e | Inr ys \<Rightarrow> Inr (y # ys)))"

text \<open>A \<^verbatim>\<open>for\<close> loop that updates an accumulator and can raise.\<close>

fun fold_m :: "('a \<Rightarrow> 'b \<Rightarrow> err + 'b) \<Rightarrow> 'a list \<Rightarrow> 'b \<Rightarrow> err + 'b" where
  "fold_m f [] acc = Inr acc"
| "fold_m f (x # xs) acc = (case f x acc of Inl e \<Rightarrow> Inl e | Inr acc' \<Rightarrow> fold_m f xs acc')"

lemma all_m_cong [fundef_cong]:
  "xs = ys \<Longrightarrow> (\<And>x. x \<in> set ys \<Longrightarrow> f x = g x) \<Longrightarrow> all_m f xs = all_m g ys"
  by (induction ys arbitrary: xs) (auto split: sum.splits)

lemma any_m_cong [fundef_cong]:
  "xs = ys \<Longrightarrow> (\<And>x. x \<in> set ys \<Longrightarrow> f x = g x) \<Longrightarrow> any_m f xs = any_m g ys"
  by (induction ys arbitrary: xs) (auto split: sum.splits)

lemma map_m_cong [fundef_cong]:
  "xs = ys \<Longrightarrow> (\<And>x. x \<in> set ys \<Longrightarrow> f x = g x) \<Longrightarrow> map_m f xs = map_m g ys"
  by (induction ys arbitrary: xs) (auto split: sum.splits)

lemma fold_m_cong [fundef_cong]:
  "xs = ys \<Longrightarrow> a = b \<Longrightarrow> (\<And>x acc. x \<in> set ys \<Longrightarrow> f x acc = g x acc)
     \<Longrightarrow> fold_m f xs a = fold_m g ys b"
  by (induction ys arbitrary: xs a b) (auto split: sum.splits)

subsection \<open>Dictionaries in insertion order\<close>

text \<open>\<^verbatim>\<open>d.setdefault(k, v)\<close> and \<^verbatim>\<open>d[k] = v\<close> on a dictionary kept as its list of items.\<close>

definition dict_setdefault :: "('k \<times> 'v) list \<Rightarrow> 'k \<Rightarrow> 'v \<Rightarrow> ('k \<times> 'v) list" where
  "dict_setdefault d k v = (if k \<in> set (map fst d) then d else d @ [(k, v)])"

fun dict_set :: "('k \<times> 'v) list \<Rightarrow> 'k \<Rightarrow> 'v \<Rightarrow> ('k \<times> 'v) list" where
  "dict_set [] k v = [(k, v)]"
| "dict_set (p # ps) k v = (if fst p = k then (k, v) # ps else p # dict_set ps k v)"

subsection \<open>Equality of values\<close>

text \<open>
  \<^verbatim>\<open>value == literal_value\<close>: numbers compare by their numeric value whatever their
  type (\<^verbatim>\<open>True == 1\<close>, \<^verbatim>\<open>1.0 == 1\<close>), text only equals text, bytes only equal bytes, and an
  instance or a container never equals a literal value.
\<close>

fun bool_int :: "bool \<Rightarrow> int" where
  "bool_int b = (if b then 1 else 0)"

fun py_eq :: "pval \<Rightarrow> plit \<Rightarrow> bool" where
  "py_eq VNone LNone = True"
| "py_eq (VBool b) (LBool c) = (b = c)"
| "py_eq (VBool b) (LInt i) = (bool_int b = i)"
| "py_eq (VInt i) (LBool b) = (i = bool_int b)"
| "py_eq (VInt i) (LInt j) = (i = j)"
| "py_eq (VFloat r) (LBool b) = (r = of_int (bool_int b))"
| "py_eq (VFloat r) (LInt i) = (r = of_int i)"
| "py_eq (VStr s) (LStr t) = (s = t)"
| "py_eq (VBytes s) (LBytes t) = (s = t)"
| "py_eq v l = False"

subsection \<open>Equality and union of type objects\<close>

text \<open>
  \<^verbatim>\<open>a == b\<close> on type objects: aliases compare their origins and arguments, unions compare
  as sets of members, literals as sets of values, and every other object is only equal to
  itself.
\<close>

fun ts_eq :: "tspec \<Rightarrow> tspec \<Rightarrow> bool" where
  "ts_eq (TAlias o1 as) (TAlias o2 bs) = (o1 = o2 \<and> list_all2 ts_eq as bs)"
| "ts_eq (TUnion k1 as) (TUnion k2 bs) =
     ((\<forall>a \<in> set as. \<exists>b \<in> set bs. ts_eq a b) \<and> (\<forall>b \<in> set bs. \<exists>a \<in> set as. ts_eq a b))"
| "ts_eq (TLiteral us) (TLiteral vs) = (set us = set vs)"
| "ts_eq a b = (a = b)"

text \<open>
  The operands that \<^verbatim>\<open>type.__or__\<close> accepts (classes, builtin aliases and
  \<^verbatim>\<open>types.UnionType\<close>), and the operands of \<^verbatim>\<open>typing\<close>, whose \<^verbatim>\<open>__or__\<close> and \<^verbatim>\<open>__ror__\<close>
  build a \<^verbatim>\<open>typing.Union\<close>.
\<close>

fun unionable :: "tspec \<Rightarrow> bool" where
  "unionable TAny = True"
| "unionable (TClass c) = True"
| "unionable (TAlias origin args) = (\<not> is_user origin)"
| "unionable (TUnion Pep604 args) = True"
| "unionable t = False"

fun typing_operand :: "tspec \<Rightarrow> bool" where
  "typing_operand (TNewType name modname t) = True"
| "typing_operand (TAlias origin args) = is_user origin"
| "typing_operand (TUnion TypingUnion args) = True"
| "typing_operand (TLiteral vs) = True"
| "typing_operand (TTypeVar n) = True"
| "typing_operand t = False"

fun members :: "tspec \<Rightarrow> tspec list" where
  "members (TUnion k args) = args"
| "members t = [t]"

text \<open>Both kinds of union drop a member that equals an earlier one.\<close>

fun dedup_eq :: "tspec list \<Rightarrow> tspec list \<Rightarrow> tspec list" where
  "dedup_eq acc [] = acc"
| "dedup_eq acc (t # ts) = dedup_eq (if list_ex (\<lambda>u. ts_eq u t) acc then acc else acc @ [t]) ts"

fun make_union :: "ukind \<Rightarrow> tspec list \<Rightarrow> tspec" where
  "make_union k [t] = t"
| "make_union k ts = TUnion k ts"

text \<open>
  \<^verbatim>\<open>a | b\<close>: the members of both operands, flattened and without duplicates; a single
  remaining member is returned itself.  Between two objects that are neither unionable nor
  of \<^verbatim>\<open>typing\<close> the operator raises \<^verbatim>\<open>TypeError\<close>.
\<close>

definition py_or :: "tspec \<Rightarrow> tspec \<Rightarrow> err + tspec" where
  "py_or a b =
     (if unionable a \<and> unionable b
        then Inr (make_union Pep604 (dedup_eq [] (members a @ members b)))
      else if typing_operand a \<or> typing_operand b
        then Inr (make_union TypingUnion (dedup_eq [] (members a @ members b)))
      else Inl TypeError)"

text \<open>\<^verbatim>\<open>result = result | t\<close> for every \<open>t\<close> of a list, as \<^verbatim>\<open>reduce(operator.or_, ...)\<close> does.\<close>

fun or_all :: "tspec \<Rightarrow> tspec list \<Rightarrow> err + tspec" where
  "or_all result [] = Inr result"
| "or_all result (t # ts) =
     (case py_or result t of Inl e \<Rightarrow> Inl e | Inr r \<Rightarrow> or_all r ts)"


section \<open>Introspection helpers\<close>

text \<open>
  \<^verbatim>\<open>dataclasses.fields(cls)\<close>, \<^verbatim>\<open>__annotations__\<close>, \<^verbatim>\<open>__parameters__\<close> and
  \<^verbatim>\<open>__required_keys__\<close> of a class; a builtin class has none of them.
\<close>

fun class_fields :: "class_table \<Rightarrow> cref \<Rightarrow> string list" where
  "class_fields ct (CUser c) = cfields (ct c)"
| "class_fields ct c = []"

fun annotations :: "class_table \<Rightarrow> cref \<Rightarrow> (string \<times> tspec) list" where
  "annotations ct (CUser c) = chints (ct c)"
| "annotations ct c = []"

text \<open>
  \<^verbatim>\<open>typing.get_type_hints(cls, include_extras=True)\<close>: the annotations with their forward
  references resolved, or the exception of the resolution.
\<close>

fun get_type_hints :: "class_table \<Rightarrow> cref \<Rightarrow> err + (string \<times> tspec) list" where
  "get_type_hints ct (CUser c) =
     (case chints_error (ct c) of None \<Rightarrow> Inr (chints (ct c)) | Some e \<Rightarrow> Inl e)"
| "get_type_hints ct c = Inr []"

fun class_parameters :: "class_table \<Rightarrow> cref \<Rightarrow> string list" where
  "class_parameters ct (CUser c) = cparams (ct c)"
| "class_parameters ct c = []"

fun required_keys :: "class_table \<Rightarrow> cref \<Rightarrow> string list" where
  "required_keys ct (CUser c) = crequired (ct c)"
| "required_keys ct c = []"

text \<open>
  \<^verbatim>\<open>_bind_type_variables_for_generic\<close>: the declared type variables zipped with the
  parameters, as a dictionary (a later item of a repeated key replaces the value).
\<close>

definition bind_type_variables_for_generic ::
  "class_table \<Rightarrow> cref \<Rightarrow> tspec list \<Rightarrow> (string \<times> tspec) list" where
  "bind_type_variables_for_generic ct generic_class parameters =
     (let declared = class_parameters ct generic_class in
      if declared = [] then []
      else fold (\<lambda>(type_var, concrete) d. dict_set d type_var concrete) (zip declared parameters) [])"

text \<open>
  \<^verbatim>\<open>_substitute_type_variables\<close>.  A type variable is looked up; an object without
  arguments is returned as it is; a union is rebuilt with \<^verbatim>\<open>|\<close>, a literal from its own
  values, and an alias from its origin and the substituted arguments.
\<close>

fun substitute_type_variables :: "tspec \<Rightarrow> (string \<times> tspec) list \<Rightarrow> err + tspec" where
  "substitute_type_variables (TTypeVar n) mapping =
     Inr (case map_of mapping n of None \<Rightarrow> TTypeVar n | Some t \<Rightarrow> t)"
| "substitute_type_variables (TUnion k args) mapping =
     (if args = [] then Inr (TUnion k args)
      else (case map_m (\<lambda>a. substitute_type_variables a mapping) args of
              Inl e \<Rightarrow> Inl e
            | Inr [] \<Rightarrow> Inl TypeError
            | Inr (t # ts) \<Rightarrow> or_all t ts))"
| "substitute_type_variables (TLiteral vs) mapping = Inr (TLiteral vs)"
| "substitute_type_variables (TAlias origin args) mapping =
     (if args = [] then Inr (TAlias origin args)
      else (case map_m (\<lambda>a. substitute_type_variables a mapping) args of
              Inl e \<Rightarrow> Inl e
            | Inr substituted_args \<Rightarrow> Inr (TAlias origin substituted_args)))"
| "substitute_type_variables t mapping = Inr t"

section \<open>Type inference from values\<close>

text \<open>
  \<^verbatim>\<open>_unionize\<close>: \<^verbatim>\<open>Any\<close> for the empty list; otherwise the first type of every printed
  form, in the order of first appearance, combined with \<^verbatim>\<open>|\<close>.
\<close>

definition unique_by_text :: "class_table \<Rightarrow> tspec list \<Rightarrow> (string \<times> tspec) list" where
  "unique_by_text ct types_list =
     fold (\<lambda>t d. dict_setdefault d (pretty_type ct t) t) types_list []"

definition unionize :: "class_table \<Rightarrow> tspec list \<Rightarrow> err + tspec" where
  "unionize ct types_list =
     (if types_list = [] then Inr TAny
      else (case map snd (unique_by_text ct types_list) of
              [] \<Rightarrow> Inl IndexError
            | [t] \<Rightarrow> Inr t
            | t # ts \<Rightarrow> or_all t ts))"

lemma size_list_member: "x \<in> set xs \<Longrightarrow> f x < Suc (size_list f xs)"
  by (induction xs) auto

lemma size_fst_member: "(a, b) \<in> set kvs \<Longrightarrow> size a < Suc (size_list (size_prod size size) kvs)"
  using size_list_member [of "(a, b)" kvs "size_prod size size"] by simp

lemma size_snd_member: "(a, b) \<in> set kvs \<Longrightarrow> size b < Suc (size_list (size_prod size size) kvs)"
  using size_list_member [of "(a, b)" kvs "size_prod size size"] by simp

lemma getattr_size [termination_simp]: "getattr v name = Inr x \<Longrightarrow> size x < size v"
proof (cases v)
  case (VObj c attrs)
  assume "getattr v name = Inr x"
  with VObj have "map_of attrs name = Some x"
    by (simp split: option.splits)
  then have "(name, x) \<in> set attrs"
    by (rule map_of_SomeD)
  then have "size x < Suc (size_list (size_prod (\<lambda>_. 0) size) attrs)"
    by (induction attrs) auto
  with VObj show ?thesis by simp
qed simp_all

text \<open>
  \<^verbatim>\<open>_infer_type_spec_from_value\<close>.  For an instance of a generic dataclass the loop over
  the fields binds every type variable that annotates a field to the type inferred from
  that field's value (the first such field wins).
\<close>

function (sequential) infer_type_spec_from_value :: "class_table \<Rightarrow> pval \<Rightarrow> err + tspec" where
  "infer_type_spec_from_value ct (VBool b) = Inr (TClass CBool)"
| "infer_type_spec_from_value ct (VInt i) = Inr (TClass CInt)"
| "infer_type_spec_from_value ct (VFloat r) = Inr (TClass CFloat)"
| "infer_type_spec_from_value ct (VStr s) = Inr (TClass CStr)"
| "infer_type_spec_from_value ct (VBytes s) = Inr (TClass CBytes)"
| "infer_type_spec_from_value ct (VList xs) =
     (case map_m (infer_type_spec_from_value ct) xs of
        Inl e \<Rightarrow> Inl e
      | Inr element_types \<Rightarrow>
          (case unionize ct element_types of Inl e \<Rightarrow> Inl e | Inr u \<Rightarrow> Inr (TAlias CList [u])))"
| "infer_type_spec_from_value ct (VSet xs) =
     (case map_m (infer_type_spec_from_value ct) xs of
        Inl e \<Rightarrow> Inl e
      | Inr element_types \<Rightarrow>
          (case unionize ct element_types of Inl e \<Rightarrow> Inl e | Inr u \<Rightarrow> Inr (TAlias CSet [u])))"
| "infer_type_spec_from_value ct (VFrozenset xs) =
     (case map_m (infer_type_spec_from_value ct) xs of
        Inl e \<Rightarrow> Inl e
      | Inr element_types \<Rightarrow>
          (case unionize ct element_types of
             Inl e \<Rightarrow> Inl e
           | Inr u \<Rightarrow> Inr (TAlias CFrozenset [u])))"
| "infer_type_spec_from_value ct (VDict kvs) =
     (if kvs \<noteq> [] then
        (case map_m (infer_type_spec_from_value ct) (map fst kvs) of
           Inl e \<Rightarrow> Inl e
         | Inr key_types \<Rightarrow>
             (case map_m (infer_type_spec_from_value ct) (map snd kvs) of
                Inl e \<Rightarrow> Inl e
              | Inr val_types \<Rightarrow>
                  (case unionize ct key_types of
                     Inl e \<Rightarrow> Inl e
                   | Inr ku \<Rightarrow>
                       (case unionize ct val_types of
                          Inl e \<Rightarrow> Inl e
                        | Inr vu \<Rightarrow> Inr (TAlias CDict [ku, vu])))))
      else Inr (TAlias CDict [TAny, TAny]))"
| "infer_type_spec_from_value ct (VTuple xs) =
     (case map_m (infer_type_spec_from_value ct) xs of
        Inl e \<Rightarrow> Inl e
      | Inr element_types \<Rightarrow> Inr (TAlias CTuple element_types))"
| "infer_type_spec_from_value ct (VObj c attrs) =
     (if is_dataclass ct (CUser c) then
        (let parameters = class_parameters ct (CUser c) in
         if parameters \<noteq> [] then
           (case get_type_hints ct (CUser c) of
              Inl e \<Rightarrow> Inl e
            | Inr type_hints \<Rightarrow>
           (case fold_m
                   (\<lambda>field inferred_mapping.
                      case map_of type_hints field of
                        None \<Rightarrow> Inr inferred_mapping
                      | Some annotated \<Rightarrow>
                          (case annotated of
                             TTypeVar tv \<Rightarrow>
                               (case getattr (VObj c attrs) field of
                                  Inl e \<Rightarrow> Inl e
                                | Inr x \<Rightarrow>
                                    (case infer_type_spec_from_value ct x of
                                       Inl e \<Rightarrow> Inl e
                                     | Inr t \<Rightarrow> Inr (dict_setdefault inferred_mapping tv t)))
                           | _ \<Rightarrow> Inr inferred_mapping))
                   (class_fields ct (CUser c)) [] of
              Inl e \<Rightarrow> Inl e
            | Inr inferred_mapping \<Rightarrow>
                if inferred_mapping \<noteq> [] \<and> list_all (\<lambda>tv. tv \<in> set (map fst inferred_mapping)) parameters
                then (case map_m (\<lambda>tv. case map_of inferred_mapping tv of
                                         None \<Rightarrow> Inl KeyError | Some t \<Rightarrow> Inr t) parameters of
                        Inl e \<Rightarrow> Inl e
                      | Inr args \<Rightarrow> Inr (TAlias (CUser c) args))
                else Inr (TClass (CUser c))))
         else Inr (TClass (CUser c)))
      else Inr (TClass (CUser c)))"
| "infer_type_spec_from_value ct VNone = Inr (TClass CNoneType)"
  by pat_completeness auto

termination
proof (relation "measure (\<lambda>(ct, v). size v)", goal_cases)
  case 1
  show ?case by simp
next
  case (8 ct c attrs parameters type_hints field inferred_mapping annotated tv x)
  then show ?case using getattr_size [of "VObj c attrs" field x] by simp
qed (auto simp: size_list_member size_fst_member size_snd_member)


section \<open>Core predicate matcher\<close>

text \<open>
  The loop \<^verbatim>\<open>while hasattr(expected_type, "__supertype__")\<close> strips every NewType.
\<close>

fun unwrap :: "tspec \<Rightarrow> tspec" where
  "unwrap (TNewType name modname t) = unwrap t"
| "unwrap t = t"

text \<open>
  The statement \<^verbatim>\<open>match origin, args\<close>: its six cases in their order (the first that
  applies is taken), and \<open>NoCase\<close> when the statement falls through.
\<close>

datatype shape =
    Sequence cref tspec
  | Mapping tspec tspec
  | VariadicTuple tspec
  | FixedTuple "tspec list"
  | NoCase

fun match_origin_args :: "cref \<Rightarrow> tspec list \<Rightarrow> shape" where
  "match_origin_args CList [element_type] = Sequence CList element_type"
| "match_origin_args CSet [element_type] = Sequence CSet element_type"
| "match_origin_args CFrozenset [element_type] = Sequence CFrozenset element_type"
| "match_origin_args CDict [key_type, value_type] = Mapping key_type value_type"
| "match_origin_args CTuple [only_type, TEllipsis] = VariadicTuple only_type"
| "match_origin_args CTuple (t # ts) = FixedTuple (t # ts)"
| "match_origin_args origin args = NoCase"

text \<open>The items of a list, set or frozenset value of the given class.\<close>

fun items_of :: "cref \<Rightarrow> pval \<Rightarrow> pval list option" where
  "items_of CList (VList xs) = Some xs"
| "items_of CSet (VSet xs) = Some xs"
| "items_of CFrozenset (VFrozenset xs) = Some xs"
| "items_of c v = None"

lemma unwrap_size: "size (unwrap t) \<le> size t"
  by (induction t rule: unwrap.induct) auto





lemma size_list_member_le: "x \<in> set xs \<Longrightarrow> f x \<le> size_list f xs"
  by (induction xs) auto

lemma items_of_Some: "items_of c v = Some xs \<Longrightarrow> x \<in> set xs \<Longrightarrow> size x < size v"
  by (induction c v rule: items_of.induct) (auto simp: less_Suc_eq_le size_list_member_le)

lemma map_of_size: "map_of kvs k = Some x \<Longrightarrow> size x < Suc (size_list (size_prod size size) kvs)"
  by (rule size_snd_member [of k]) (rule map_of_SomeD)

text \<open>
  \<^verbatim>\<open>_matches\<close> and \<^verbatim>\<open>_matches_dataclass_fields\<close>.  The branches stand in the order of the
  source: \<^verbatim>\<open>Any\<close>; NewType; a class (a dataclass, a TypedDict, any other class); a
  union; a literal; the \<^verbatim>\<open>match\<close> statement; a parameterized class; and \<^verbatim>\<open>False\<close> for
  every other object.  After a NewType of \<^verbatim>\<open>Any\<close> has been unwrapped, \<^verbatim>\<open>Any\<close> is a class
  for which \<^verbatim>\<open>isinstance\<close> raises \<^verbatim>\<open>TypeError\<close>.
\<close>

function matches :: "class_table \<Rightarrow> pval \<Rightarrow> tspec \<Rightarrow> err + bool"
  and matches_dataclass_fields ::
    "class_table \<Rightarrow> pval \<Rightarrow> cref \<Rightarrow> (string \<times> tspec) list \<Rightarrow> err + bool"
where
  "matches ct v expected_type =
     (if expected_type = TAny then Inr True
      else
        (case unwrap expected_type of
           TAny \<Rightarrow> Inl TypeError
         | TNewType name modname t \<Rightarrow> Inr False
         | TClass c \<Rightarrow>
             (if is_dataclass ct c then
                (case isinstance ct v c of
                   Inl e \<Rightarrow> Inl e
                 | Inr b \<Rightarrow> if b then matches_dataclass_fields ct v c [] else Inr False)
              else if is_typed_dict_class ct c then
                (case v of
                   VDict kvs \<Rightarrow>
                     (if \<not> list_all (\<lambda>k. VStr k \<in> set (map fst kvs)) (required_keys ct c)
                        then Inr False
                      else if list_ex (\<lambda>k. k \<notin> set (map (\<lambda>a. VStr (fst a)) (annotations ct c)))
                                (map fst kvs)
                        then Inr False
                      else all_m
                             (\<lambda>(key, field_type).
                                case map_of kvs (VStr key) of
                                  Some x \<Rightarrow> matches ct x field_type
                                | None \<Rightarrow> Inr (key \<notin> set (required_keys ct c)))
                             (annotations ct c))
                 | _ \<Rightarrow> Inr False)
              else isinstance ct v c)
         | TUnion k args \<Rightarrow> any_m (\<lambda>option. matches ct v option) args
         | TLiteral vs \<Rightarrow> Inr (list_ex (\<lambda>literal_value. py_eq v literal_value) vs)
         | TAlias origin args \<Rightarrow>
             (case match_origin_args origin args of
                Sequence c element_type \<Rightarrow>
                  (case items_of c v of
                     Some xs \<Rightarrow> all_m (\<lambda>item. matches ct item element_type) xs
                   | None \<Rightarrow> Inr False)
              | Mapping key_type value_type \<Rightarrow>
                  (case v of
                     VDict kvs \<Rightarrow>
                       all_m
                         (\<lambda>(key, val).
                            case matches ct key key_type of
                              Inl e \<Rightarrow> Inl e
                            | Inr b \<Rightarrow> if b then matches ct val value_type else Inr False)
                         kvs
                   | _ \<Rightarrow> Inr False)
              | VariadicTuple only_type \<Rightarrow>
                  (case v of
                     VTuple xs \<Rightarrow> all_m (\<lambda>item. matches ct item only_type) xs
                   | _ \<Rightarrow> Inr False)
              | FixedTuple element_types \<Rightarrow>
                  (case v of
                     VTuple xs \<Rightarrow>
                       (if length xs = length element_types
                          then all_m (\<lambda>(item, elem_type). matches ct item elem_type)
                                 (zip xs element_types)
                        else Inr False)
                   | _ \<Rightarrow> Inr False)
              | NoCase \<Rightarrow>
                  (case isinstance ct v origin of
                     Inl e \<Rightarrow> Inl e
                   | Inr b \<Rightarrow>
                       if \<not> b then Inr False
                       else if is_dataclass ct origin then
                         matches_dataclass_fields ct v origin
                           (bind_type_variables_for_generic ct origin args)
                       else Inr True))
         | TTypeVar n \<Rightarrow> Inr False
         | TEllipsis \<Rightarrow> Inr False
         | TOther r \<Rightarrow> Inr False))"
| "matches_dataclass_fields ct instance dataclass_type bound_type_vars =
     (case get_type_hints ct dataclass_type of
        Inl e \<Rightarrow> Inl e
      | Inr type_hints \<Rightarrow>
          all_m
            (\<lambda>field.
               case map_of type_hints field of
                 None \<Rightarrow> Inr True
               | Some annotated_field_type \<Rightarrow>
                   (case (if bound_type_vars \<noteq> []
                          then substitute_type_variables annotated_field_type bound_type_vars
                          else Inr annotated_field_type) of
                      Inl e \<Rightarrow> Inl e
                    | Inr concrete_field_type \<Rightarrow>
                        (case getattr instance field of
                           Inl e \<Rightarrow> Inl e
                         | Inr x \<Rightarrow> matches ct x concrete_field_type)))
            (class_fields ct dataclass_type))"
  by pat_completeness auto


termination
proof (relation "measures
    [\<lambda>x. case x of Inl (ct, v, t) \<Rightarrow> size v | Inr (ct, v, c, b) \<Rightarrow> size v,
     \<lambda>x. case x of Inl (ct, v, t) \<Rightarrow> Suc 0 | Inr (ct, v, c, b) \<Rightarrow> 0,
     \<lambda>x. case x of Inl (ct, v, t) \<Rightarrow> size t | Inr (ct, v, c, b) \<Rightarrow> 0]", goal_cases)
  case 1
  show ?case by simp
next
  case (2 ct v expected_type c)
  show ?case by simp
next
  case (3 ct v expected_type c kvs key_field key field_type x)
  then show ?case by (simp add: map_of_size)
next
  case (4 ct v expected_type origin args c element_type xs item)
  then show ?case by (simp add: items_of_Some)
next
  case (5 ct v expected_type origin args key_type value_type kvs key_val key val)
  then have "size key < Suc (size_list (size_prod size size) kvs)"
    by (auto intro: size_fst_member)
  with 5 show ?case by simp
next
  case (6 ct v expected_type origin args key_type value_type kvs key_val key val b)
  then have "size val < Suc (size_list (size_prod size size) kvs)"
    by (auto intro: size_snd_member)
  with 6 show ?case by simp
next
  case (7 ct v expected_type origin args only_type xs item)
  then show ?case by (simp add: size_list_member)
next
  case (8 ct v expected_type origin args element_types xs item_elem item elem_type)
  then have "item \<in> set xs" by (auto dest: set_zip_leftD)
  then have "size item < Suc (size_list size xs)" by (rule size_list_member)
  with 8 show ?case by (cases item_elem) auto
next
  case (9 ct v expected_type origin args)
  show ?case by simp
next
  case (10 ct v expected_type k args option)
  have "size option < Suc (size_list size args)"
    using 10 by (simp add: size_list_member)
  also have "\<dots> \<le> size (unwrap expected_type)"
    using 10 by simp
  also have "\<dots> \<le> size expected_type"
    by (rule unwrap_size)
  finally show ?case by simp
next
  case (11 ct inst dataclass_type bound_type_vars field annotated_field_type concrete_field_type x)
  then show ?case by (simp add: getattr_size)
qed


declare matches.simps [simp del]

section \<open>Public API\<close>





section \<open>Equations of the matcher, one for each kind of expected type\<close>

lemma unwrap_idem: "unwrap (unwrap t) = unwrap t"
  by (induction t rule: unwrap.induct) auto


lemma matches_TAny [simp]: "matches ct v TAny = Inr True"
  by (simp add: matches.simps)

lemma matches_TNewType:
  "matches ct v (TNewType name modname t) =
     (if unwrap t = TAny then Inl TypeError else matches ct v (unwrap t))"
  by (simp add: matches.simps [of ct v "TNewType name modname t"] matches.simps [of ct v "unwrap t"]
      unwrap_idem)

lemma matches_TClass:
  "matches ct v (TClass c) =
     (if is_dataclass ct c then
        (case isinstance ct v c of
           Inl e \<Rightarrow> Inl e
         | Inr b \<Rightarrow> if b then matches_dataclass_fields ct v c [] else Inr False)
      else if is_typed_dict_class ct c then
        (case v of
           VDict kvs \<Rightarrow>
             (if \<not> list_all (\<lambda>k. VStr k \<in> set (map fst kvs)) (required_keys ct c)
                then Inr False
              else if list_ex (\<lambda>k. k \<notin> set (map (\<lambda>a. VStr (fst a)) (annotations ct c)))
                        (map fst kvs)
                then Inr False
              else all_m
                     (\<lambda>(key, field_type).
                        case map_of kvs (VStr key) of
                          Some x \<Rightarrow> matches ct x field_type
                        | None \<Rightarrow> Inr (key \<notin> set (required_keys ct c)))
                     (annotations ct c))
         | _ \<Rightarrow> Inr False)
      else isinstance ct v c)"
  by (simp add: matches.simps [of ct v "TClass c"])

lemma matches_TUnion [simp]:
  "matches ct v (TUnion k args) = any_m (\<lambda>option. matches ct v option) args"
  by (simp add: matches.simps [of ct v "TUnion k args"])

lemma matches_TLiteral [simp]:
  "matches ct v (TLiteral vs) = Inr (list_ex (\<lambda>literal_value. py_eq v literal_value) vs)"
  by (simp add: matches.simps [of ct v "TLiteral vs"])

lemma matches_TAlias:
  "matches ct v (TAlias origin args) =
     (case match_origin_args origin args of
        Sequence c element_type \<Rightarrow>
          (case items_of c v of
             Some xs \<Rightarrow> all_m (\<lambda>item. matches ct item element_type) xs
           | None \<Rightarrow> Inr False)
      | Mapping key_type value_type \<Rightarrow>
          (case v of
             VDict kvs \<Rightarrow>
               all_m
                 (\<lambda>(key, val).
                    case matches ct key key_type of
                      Inl e \<Rightarrow> Inl e
                    | Inr b \<Rightarrow> if b then matches ct val value_type else Inr False)
                 kvs
           | _ \<Rightarrow> Inr False)
      | VariadicTuple only_type \<Rightarrow>
          (case v of
             VTuple xs \<Rightarrow> all_m (\<lambda>item. matches ct item only_type) xs
           | _ \<Rightarrow> Inr False)
      | FixedTuple element_types \<Rightarrow>
          (case v of
             VTuple xs \<Rightarrow>
               (if length xs = length element_types
                  then all_m (\<lambda>(item, elem_type). matches ct item elem_type)
                         (zip xs element_types)
                else Inr False)
           | _ \<Rightarrow> Inr False)
      | NoCase \<Rightarrow>
          (case isinstance ct v origin of
             Inl e \<Rightarrow> Inl e
           | Inr b \<Rightarrow>
               if \<not> b then Inr False
               else if is_dataclass ct origin then
                 matches_dataclass_fields ct v origin
                   (bind_type_variables_for_generic ct origin args)
               else Inr True))"
  by (simp add: matches.simps [of ct v "TAlias origin args"])

lemma matches_unknown [simp]:
  "matches ct v (TTypeVar n) = Inr False"
  "matches ct v TEllipsis = Inr False"
  "matches ct v (TOther r) = Inr False"
  by (simp_all add: matches.simps)

lemma all_m_True: "all_m f xs = Inr True \<longleftrightarrow> (\<forall>x \<in> set xs. f x = Inr True)"
  by (induction xs) (auto split: sum.splits)

lemma any_m_True_D: "any_m f xs = Inr True \<Longrightarrow> \<exists>x \<in> set xs. f x = Inr True"
  by (induction xs) (auto split: sum.splits if_splits)



section \<open>Classes of the examples\<close>

text \<open>
  The classes of \<^verbatim>\<open>tests/example/library.py\<close>: the generic dataclass \<^verbatim>\<open>Box\<close> with the
  field \<^verbatim>\<open>value: T\<close> (class 0); the TypedDict \<^verbatim>\<open>User\<close>, here with the two fields
  \<^verbatim>\<open>id: int\<close> and \<^verbatim>\<open>name: str\<close> (class 1); and the protocol \<^verbatim>\<open>SupportsLen\<close>, which is not
  \<^verbatim>\<open>runtime_checkable\<close> (class 3).  Beside them stand two further dataclasses: the generic
  \<^verbatim>\<open>Shelf\<close> with the fields \<^verbatim>\<open>items: list[T]\<close>, \<^verbatim>\<open>spare: T | None\<close> (a \<^verbatim>\<open>typing.Union\<close>, as
  \<open>T\<close> is a type variable) and \<^verbatim>\<open>inner: Box[T]\<close> (class 5); and, for every other number,
  \<^verbatim>\<open>Point\<close> with the field \<^verbatim>\<open>x: int\<close>.
\<close>

definition Box :: class_info where
  "Box = \<lparr>cname = ''Box'', cqualified = ''tests.example.library.Box'', csupers = [],
     cvirtual = [], cuncheckable = False,
     cdataclass = True, ctypeddict = False, cparams = [''T''], cfields = [''value''],
     chints = [(''value'', TTypeVar ''T'')], chints_error = None, crequired = []\<rparr>"

definition User :: class_info where
  "User = \<lparr>cname = ''User'', cqualified = ''tests.example.library.User'', csupers = [],
     cvirtual = [], cuncheckable = True,
     cdataclass = False, ctypeddict = True, cparams = [], cfields = [],
     chints = [(''id'', TClass CInt), (''name'', TClass CStr)], chints_error = None,
     crequired = [''id'', ''name'']\<rparr>"

definition Point :: class_info where
  "Point = \<lparr>cname = ''Point'', cqualified = ''tests.example.library.Point'', csupers = [],
     cvirtual = [], cuncheckable = False,
     cdataclass = True, ctypeddict = False, cparams = [], cfields = [''x''],
     chints = [(''x'', TClass CInt)], chints_error = None, crequired = []\<rparr>"

definition SupportsLen :: class_info where
  "SupportsLen = \<lparr>cname = ''SupportsLen'', cqualified = ''tests.example.library.SupportsLen'',
     csupers = [], cvirtual = [], cuncheckable = True,
     cdataclass = False, ctypeddict = False, cparams = [], cfields = [],
     chints = [], chints_error = None, crequired = []\<rparr>"

definition Shelf :: class_info where
  "Shelf = \<lparr>cname = ''Shelf'', cqualified = ''examples.Shelf'', csupers = [],
     cvirtual = [], cuncheckable = False,
     cdataclass = True, ctypeddict = False, cparams = [''T''],
     cfields = [''items'', ''spare'', ''inner''],
     chints = [(''items'', TAlias CList [TTypeVar ''T'']),
               (''spare'', TUnion TypingUnion [TTypeVar ''T'', TClass CNoneType]),
               (''inner'', TAlias (CUser 0) [TTypeVar ''T''])],
     chints_error = None, crequired = []\<rparr>"

definition example_classes :: class_table where
  "example_classes n =
     (if n = 0 then Box else if n = 1 then User else if n = 3 then SupportsLen
      else if n = 5 then Shelf else Point)"

lemmas example_defs = example_classes_def Box_def User_def Point_def SupportsLen_def Shelf_def


section \<open>Booleans, integers and literals\<close>

text \<open>
  C2 (as amended).  A boolean matches \<^verbatim>\<open>bool\<close>, and it matches \<^verbatim>\<open>int\<close> as well: the matcher
  checks a plain class with \<^verbatim>\<open>isinstance\<close>, and \<^verbatim>\<open>bool\<close> is a subclass of \<^verbatim>\<open>int\<close>.  In
  the other direction an integer does not match \<^verbatim>\<open>bool\<close>.  It is the inference that keeps
  the two kinds apart: a boolean is inferred as \<^verbatim>\<open>bool\<close> and an integer as \<^verbatim>\<open>int\<close>.
\<close>

theorem bool_and_int_classes:
  "matches ct (VBool b) (TClass CBool) = Inr True \<and>
   matches ct (VBool b) (TClass CInt) = Inr True \<and>
   matches ct (VInt i) (TClass CBool) = Inr False \<and>
   infer_type_spec_from_value ct (VBool b) = Inr (TClass CBool) \<and>
   infer_type_spec_from_value ct (VInt i) = Inr (TClass CInt)"
  by (simp add: matches_TClass isinstance_def)

text \<open>The claim as stated fails: \<^verbatim>\<open>True\<close> matches \<^verbatim>\<open>int\<close>.\<close>

theorem bool_against_int_counterexample:
  "matches example_classes (VBool True) (TClass CInt) = Inr True"
  by (simp add: matches_TClass isinstance_def example_defs)

lemma py_eq_text: "py_eq (VStr s) l = (l = LStr s)"
  by (cases l) auto

lemma py_eq_text_literal: "py_eq v (LStr s) = (v = VStr s)"
  by (cases v) auto

text \<open>
  C9.  Matching against a literal never raises, and it succeeds exactly when the value
  equals one of the listed values.  Text is never coerced: a text value equals only the
  literal of the same text, and a text literal is only equalled by the same text.  So
  \<^verbatim>\<open>5\<close> matches \<^verbatim>\<open>Literal[5]\<close> and not \<^verbatim>\<open>Literal[6]\<close>, and \<^verbatim>\<open>"5"\<close> does not match
  \<^verbatim>\<open>Literal[5]\<close>.
\<close>

theorem literal_exactness:
  "matches ct v (TLiteral vs) = Inr (\<exists>l \<in> set vs. py_eq v l) \<and>
   py_eq (VStr s) l = (l = LStr s) \<and>
   py_eq v (LStr s) = (v = VStr s) \<and>
   matches ct (VInt 5) (TLiteral [LInt 5]) = Inr True \<and>
   matches ct (VInt 5) (TLiteral [LInt 6]) = Inr False \<and>
   matches ct (VStr ''5'') (TLiteral [LInt 5]) = Inr False"
  by (simp add: py_eq_text py_eq_text_literal list_ex_iff)

text \<open>
  C10 (as amended).  A literal of integers accepts the numerically equal booleans and a
  literal of booleans the numerically equal integers: \<^verbatim>\<open>True\<close> matches \<^verbatim>\<open>Literal[1]\<close> and
  \<^verbatim>\<open>1\<close> matches \<^verbatim>\<open>Literal[True]\<close>.  The check of a plain class tells the two kinds apart in
  one direction only: an integer does not match \<^verbatim>\<open>bool\<close>, but a boolean matches \<^verbatim>\<open>int\<close>.
\<close>

theorem literal_bool_int:
  "matches ct (VBool True) (TLiteral [LInt 1]) = Inr True \<and>
   matches ct (VInt 1) (TLiteral [LBool True]) = Inr True \<and>
   matches ct (VBool b) (TLiteral [LInt (bool_int b)]) = Inr True \<and>
   matches ct (VInt (bool_int b)) (TLiteral [LBool b]) = Inr True \<and>
   matches ct (VInt i) (TClass CBool) = Inr False \<and>
   matches ct (VBool b) (TClass CInt) = Inr True"
  by (simp add: matches_TClass isinstance_def)

text \<open>
  The claim as stated says that the matcher otherwise keeps booleans apart from integers;
  \<^verbatim>\<open>False\<close> matches \<^verbatim>\<open>int\<close>.
\<close>

theorem false_against_int_counterexample:
  "matches example_classes (VBool False) (TClass CInt) = Inr True"
  by (simp add: matches_TClass isinstance_def example_defs)

section \<open>Tuples\<close>

lemma match_origin_args_fixed:
  "es \<noteq> [] \<Longrightarrow> \<forall>e. es \<noteq> [e, TEllipsis] \<Longrightarrow> match_origin_args CTuple es = FixedTuple es"
  by (induction CTuple es rule: match_origin_args.induct) auto

lemma all_m_zip:
  "length xs = length ys \<Longrightarrow>
   (all_m (\<lambda>(x, y). f x y) (zip xs ys) = Inr True) =
     (\<forall>i < length xs. f (xs ! i) (ys ! i) = Inr True)"
  by (auto simp: all_m_True set_zip)

text \<open>
  C7 (as amended).  Against \<^verbatim>\<open>tuple[e1, ..., en]\<close> with at least one element type (and not
  of the form \<^verbatim>\<open>tuple[e, ...]\<close>) a tuple matches exactly when its length is \<open>n\<close> and every
  position matches its element type.  Against \<^verbatim>\<open>tuple[e, ...]\<close> a tuple of any length,
  also the empty one, matches exactly when every element matches \<open>e\<close>.  Against the empty
  fixed tuple \<^verbatim>\<open>tuple[()]\<close> every tuple matches, whatever its length.  So \<^verbatim>\<open>(1, "a")\<close>
  matches \<^verbatim>\<open>tuple[int, str]\<close>, \<^verbatim>\<open>(1, "a", 2)\<close> does not, and \<^verbatim>\<open>(1, 2, 3)\<close> matches
  \<^verbatim>\<open>tuple[int, ...]\<close>.
\<close>

theorem tuple_matching:
  "(es \<noteq> [] \<and> (\<forall>e. es \<noteq> [e, TEllipsis]) \<longrightarrow>
      (matches ct (VTuple xs) (TAlias CTuple es) = Inr True) =
        (length xs = length es \<and> (\<forall>i < length xs. matches ct (xs ! i) (es ! i) = Inr True))) \<and>
   (matches ct (VTuple xs) (TAlias CTuple [e, TEllipsis]) = Inr True) =
        (\<forall>x \<in> set xs. matches ct x e = Inr True) \<and>
   matches ct (VTuple []) (TAlias CTuple [e, TEllipsis]) = Inr True \<and>
   matches ct (VTuple xs) (TAlias CTuple []) = Inr True \<and>
   matches ct (VTuple [VInt 1, VStr ''a'']) (TAlias CTuple [TClass CInt, TClass CStr]) = Inr True \<and>
   matches ct (VTuple [VInt 1, VStr ''a'', VInt 2]) (TAlias CTuple [TClass CInt, TClass CStr])
     = Inr False \<and>
   matches ct (VTuple [VInt 1, VInt 2, VInt 3]) (TAlias CTuple [TClass CInt, TEllipsis]) = Inr True"
proof -
  have fixed: "(matches ct (VTuple xs) (TAlias CTuple es) = Inr True) =
        (length xs = length es \<and> (\<forall>i < length xs. matches ct (xs ! i) (es ! i) = Inr True))"
    if "es \<noteq> []" "\<forall>e. es \<noteq> [e, TEllipsis]"
    using that by (simp add: matches_TAlias match_origin_args_fixed all_m_zip)
  have variadic: "(matches ct (VTuple xs) (TAlias CTuple [e, TEllipsis]) = Inr True) =
        (\<forall>x \<in> set xs. matches ct x e = Inr True)"
    by (simp add: matches_TAlias all_m_True)
  have empty: "matches ct (VTuple xs) (TAlias CTuple []) = Inr True"
    by (simp add: matches_TAlias isinstance_def)
  have ex:
    "matches ct (VTuple [VInt 1, VStr ''a'']) (TAlias CTuple [TClass CInt, TClass CStr]) = Inr True"
    "matches ct (VTuple [VInt 1, VStr ''a'', VInt 2]) (TAlias CTuple [TClass CInt, TClass CStr])
       = Inr False"
    "matches ct (VTuple [VInt 1, VInt 2, VInt 3]) (TAlias CTuple [TClass CInt, TEllipsis]) = Inr True"
    by (simp_all add: matches_TAlias matches_TClass isinstance_def)
  show ?thesis
    using fixed variadic empty ex by (simp add: matches_TAlias)
qed

theorem tuple_matching_witness:
  "(matches example_classes (VTuple [VInt 1, VStr ''a''])
      (TAlias CTuple [TClass CInt, TClass CStr]) = Inr True) =
     (length [VInt 1, VStr ''a''] = length [TClass CInt, TClass CStr] \<and>
      matches example_classes (VInt 1) (TClass CInt) = Inr True \<and>
      matches example_classes (VStr ''a'') (TClass CStr) = Inr True)"
  using tuple_matching [of "[TClass CInt, TClass CStr]" example_classes "[VInt 1, VStr ''a'']"]
  by (simp add: matches_TClass isinstance_def)

text \<open>
  The claim as stated fails for the empty fixed tuple: a tuple of length 1 matches
  \<^verbatim>\<open>tuple[()]\<close>, which has no element type.
\<close>

theorem empty_fixed_tuple_counterexample:
  "matches example_classes (VTuple [VInt 1]) (TAlias CTuple []) = Inr True \<and>
   length [VInt 1] \<noteq> length ([] :: tspec list)"
  by (simp add: matches_TAlias isinstance_def)


section \<open>Records with declared keys\<close>

text \<open>The value \<^verbatim>\<open>{"id": 1, "name": "a", "extra": True}\<close>.\<close>

definition user_with_extra :: pval where
  "user_with_extra = VDict [(VStr ''id'', VInt 1), (VStr ''name'', VStr ''a''), (VStr ''extra'', VBool True)]"

text \<open>
  C6.  A TypedDict class is a closed record.  A dictionary matches it exactly when every
  required key is present, every key of the dictionary is a declared key, and the value
  of every declared key that is present matches the declared type (so every required
  field is present and matches).  The dictionary with the extra key fails against
  \<^verbatim>\<open>User\<close>, and the one without it matches.
\<close>

theorem closed_record_matching:
  "(ctypeddict (ct c) \<and> \<not> cdataclass (ct c) \<longrightarrow>
     (matches ct (VDict kvs) (TClass (CUser c)) = Inr True) =
       ((\<forall>k \<in> set (crequired (ct c)). VStr k \<in> fst ` set kvs) \<and>
        (\<forall>key \<in> fst ` set kvs. \<exists>name \<in> fst ` set (chints (ct c)). key = VStr name) \<and>
        (\<forall>(name, t) \<in> set (chints (ct c)). \<forall>x.
            map_of kvs (VStr name) = Some x \<longrightarrow> matches ct x t = Inr True))) \<and>
   matches example_classes user_with_extra (TClass (CUser 1)) = Inr False \<and>
   matches example_classes (VDict [(VStr ''id'', VInt 1), (VStr ''name'', VStr ''a'')])
     (TClass (CUser 1)) = Inr True"
proof -
  have general: "(matches ct (VDict kvs) (TClass (CUser c)) = Inr True) =
       ((\<forall>k \<in> set (crequired (ct c)). VStr k \<in> fst ` set kvs) \<and>
        (\<forall>key \<in> fst ` set kvs. \<exists>name \<in> fst ` set (chints (ct c)). key = VStr name) \<and>
        (\<forall>(name, t) \<in> set (chints (ct c)). \<forall>x.
            map_of kvs (VStr name) = Some x \<longrightarrow> matches ct x t = Inr True))"
    (is "?lhs = (?req \<and> ?closed \<and> ?fields)")
    if td: "ctypeddict (ct c)" "\<not> cdataclass (ct c)"
  proof -
    have req: "list_all (\<lambda>k. VStr k \<in> set (map fst kvs)) (crequired (ct c)) = ?req"
      by (simp add: list_all_iff)
    have closed: "(\<not> list_ex (\<lambda>k. k \<notin> set (map (\<lambda>a. VStr (fst a)) (chints (ct c)))) (map fst kvs)) = ?closed"
      by (auto simp: list_ex_iff image_iff)
    have fields: "?req \<Longrightarrow>
        (all_m (\<lambda>(key, field_type). case map_of kvs (VStr key) of
                  Some x \<Rightarrow> matches ct x field_type
                | None \<Rightarrow> Inr (key \<notin> set (crequired (ct c)))) (chints (ct c)) = Inr True) = ?fields"
      by (intro iffI; fastforce simp: all_m_True map_of_eq_None_iff split: option.splits)
    have m0: "matches ct (VDict kvs) (TClass (CUser c)) =
        (if \<not> list_all (\<lambda>k. VStr k \<in> set (map fst kvs)) (crequired (ct c)) then Inr False
         else if list_ex (\<lambda>k. k \<notin> set (map (\<lambda>a. VStr (fst a)) (chints (ct c)))) (map fst kvs)
           then Inr False
         else all_m (\<lambda>(key, field_type). case map_of kvs (VStr key) of
                  Some x \<Rightarrow> matches ct x field_type
                | None \<Rightarrow> Inr (key \<notin> set (crequired (ct c)))) (chints (ct c)))"
      using td
      by (simp only: matches_TClass is_dataclass.simps is_typed_dict_class.simps if_True if_False
          pval.case required_keys.simps annotations.simps)
    have m: "matches ct (VDict kvs) (TClass (CUser c)) =
        (if \<not> ?req then Inr False
         else if \<not> ?closed then Inr False
         else all_m (\<lambda>(key, field_type). case map_of kvs (VStr key) of
                  Some x \<Rightarrow> matches ct x field_type
                | None \<Rightarrow> Inr (key \<notin> set (crequired (ct c)))) (chints (ct c)))"
      unfolding m0 req closed [symmetric] by (simp only: not_not)
    show ?thesis
    proof (cases "?req \<and> ?closed")
      case True
      then show ?thesis using fields by (simp add: m)
    next
      case False
      then show ?thesis by (auto simp: m)
    qed
  qed
  have "matches example_classes user_with_extra (TClass (CUser 1)) = Inr False"
    by (simp add: matches_TClass user_with_extra_def example_defs)
  moreover have "matches example_classes (VDict [(VStr ''id'', VInt 1), (VStr ''name'', VStr ''a'')])
     (TClass (CUser 1)) = Inr True"
    by (simp add: matches_TClass example_defs isinstance_def)
  ultimately show ?thesis using general by blast
qed


theorem closed_record_matching_witness:
  "ctypeddict (example_classes 1) \<and> \<not> cdataclass (example_classes 1) \<and>
   matches example_classes user_with_extra (TClass (CUser 1)) \<noteq> Inr True \<and>
   (\<exists>key \<in> fst ` set [(VStr ''id'', VInt 1), (VStr ''name'', VStr ''a''), (VStr ''extra'', VBool True)].
      \<forall>name \<in> fst ` set (chints (example_classes 1)). key \<noteq> VStr name)"
  using closed_record_matching [of example_classes 1
      "[(VStr ''id'', VInt 1), (VStr ''name'', VStr ''a''), (VStr ''extra'', VBool True)]"]
  by (simp add: example_defs user_with_extra_def)

section \<open>The outcomes of \<^verbatim>\<open>validate\<close>\<close>





section \<open>Unions of inferred types\<close>

text \<open>\<^verbatim>\<open>_is_union\<close>: the object is a union of either kind.\<close>

fun is_union :: "tspec \<Rightarrow> bool" where
  "is_union (TUnion k args) = True"
| "is_union t = False"

text \<open>
  Deduplication by printed form in the words of the specification: a type is kept when
  no earlier type of the list prints like it (\<open>seen\<close> holds the printed forms so far).
\<close>

fun first_seen :: "class_table \<Rightarrow> string list \<Rightarrow> tspec list \<Rightarrow> tspec list" where
  "first_seen ct seen [] = []"
| "first_seen ct seen (t # ts) =
     (if pretty_type ct t \<in> set seen then first_seen ct seen ts
      else t # first_seen ct (seen @ [pretty_type ct t]) ts)"

text \<open>No member of the list equals, as a type object, a later member.\<close>

fun eq_free :: "tspec list \<Rightarrow> bool" where
  "eq_free [] = True"
| "eq_free (t # ts) = ((\<forall>u \<in> set ts. \<not> ts_eq t u) \<and> eq_free ts)"

lemma unique_by_text_fold:
  "map snd (fold (\<lambda>t d. dict_setdefault d (pretty_type ct t) t) ts d) =
     map snd d @ first_seen ct (map fst d) ts"
  by (induction ts arbitrary: d) (auto simp: dict_setdefault_def)

lemma unique_by_text_first_seen: "map snd (unique_by_text ct ts) = first_seen ct [] ts"
  by (simp add: unique_by_text_def unique_by_text_fold)

lemma eq_free_append:
  "eq_free (xs @ ys) = (eq_free xs \<and> eq_free ys \<and> (\<forall>x \<in> set xs. \<forall>y \<in> set ys. \<not> ts_eq x y))"
  by (induction xs) auto

lemma dedup_eq_free: "eq_free (acc @ ts) \<Longrightarrow> dedup_eq acc ts = acc @ ts"
proof (induction ts arbitrary: acc)
  case Nil
  then show ?case by simp
next
  case (Cons t ts)
  from Cons.prems have "\<not> list_ex (\<lambda>u. ts_eq u t) acc"
    by (auto simp: eq_free_append list_ex_iff)
  moreover from Cons.prems have "eq_free ((acc @ [t]) @ ts)"
    by (auto simp: eq_free_append)
  ultimately show ?case using Cons.IH [of "acc @ [t]"] by simp
qed

lemma members_not_union: "\<not> is_union t \<Longrightarrow> members t = [t]"
  by (cases t) auto

lemma or_all_union:
  "eq_free (pre @ ts) \<Longrightarrow> 2 \<le> length pre \<Longrightarrow>
   \<forall>s \<in> set ts. \<not> is_union s \<and> (unionable s \<or> typing_operand s) \<Longrightarrow>
   or_all (TUnion k pre) ts =
     Inr (TUnion (if k = Pep604 \<and> (\<forall>s \<in> set ts. unionable s) then Pep604 else TypingUnion) (pre @ ts))"
proof (induction ts arbitrary: pre k)
  case Nil
  then show ?case by (cases k) auto
next
  case (Cons t ts)
  let ?k' = "if k = Pep604 \<and> unionable t then Pep604 else TypingUnion"
  have free: "eq_free ([] @ (pre @ [t]))"
    using Cons.prems(1) by (auto simp: eq_free_append)
  have len: "\<exists>a b rest. pre @ [t] = a # b # rest"
    using Cons.prems(2) by (cases pre; cases "tl pre") auto
  then have mk: "make_union k0 (pre @ [t]) = TUnion k0 (pre @ [t])" for k0
    by (cases pre; cases "tl pre") auto
  have t: "members t = [t]" "unionable t \<or> typing_operand t"
    using Cons.prems(3) by (auto simp: members_not_union)
  have step: "py_or (TUnion k pre) t = Inr (TUnion ?k' (pre @ [t]))"
    using t dedup_eq_free [OF free] mk by (cases k) (auto simp: py_or_def)
  have "or_all (TUnion ?k' (pre @ [t])) ts =
     Inr (TUnion (if ?k' = Pep604 \<and> (\<forall>s \<in> set ts. unionable s) then Pep604 else TypingUnion)
        ((pre @ [t]) @ ts))"
    using Cons.prems by (intro Cons.IH) auto
  with step show ?case by auto
qed

lemma or_all_distinct:
  assumes "eq_free (a # b # ts)"
    and "\<forall>s \<in> set (a # b # ts). \<not> is_union s \<and> (unionable s \<or> typing_operand s)"
  shows "or_all a (b # ts) =
     Inr (TUnion (if \<forall>s \<in> set (a # b # ts). unionable s then Pep604 else TypingUnion) (a # b # ts))"
proof -
  let ?k = "if unionable a \<and> unionable b then Pep604 else TypingUnion"
  have free: "eq_free ([] @ [a, b])"
    using assms(1) by auto
  have ab: "members a = [a]" "members b = [b]" "unionable a \<or> typing_operand a"
    "unionable b \<or> typing_operand b"
    using assms(2) by (auto simp: members_not_union)
  have step: "py_or a b = Inr (TUnion ?k [a, b])"
    using ab dedup_eq_free [OF free] by (auto simp: py_or_def)
  have "or_all (TUnion ?k [a, b]) ts =
     Inr (TUnion (if ?k = Pep604 \<and> (\<forall>s \<in> set ts. unionable s) then Pep604 else TypingUnion)
        ([a, b] @ ts))"
    using assms by (intro or_all_union) auto
  with step show ?thesis by auto
qed

text \<open>
  C8 (as amended).  \<^verbatim>\<open>_unionize\<close> of the empty list is \<^verbatim>\<open>Any\<close>.  Otherwise the list is
  deduplicated by printed form in first-seen order, and the survivors are combined from
  the left with \<^verbatim>\<open>|\<close>: a single survivor is returned as it is; two or more survivors
  that are not unions themselves, that \<^verbatim>\<open>|\<close> accepts, and of which none equals an earlier
  one as a type object, give one union of all survivors in first-seen order (a
  \<^verbatim>\<open>types.UnionType\<close> when all are classes or builtin aliases, a \<^verbatim>\<open>typing.Union\<close>
  otherwise).
\<close>

theorem unionize_first_seen:
  "unionize ct [] = Inr TAny \<and>
   (ts \<noteq> [] \<longrightarrow>
      (\<exists>s rest. first_seen ct [] ts = s # rest \<and> unionize ct ts = or_all s rest)) \<and>
   (first_seen ct [] ts = [s] \<longrightarrow> unionize ct ts = Inr s) \<and>
   (2 \<le> length (first_seen ct [] ts) \<and> eq_free (first_seen ct [] ts) \<and>
    (\<forall>s \<in> set (first_seen ct [] ts). \<not> is_union s \<and> (unionable s \<or> typing_operand s)) \<longrightarrow>
      unionize ct ts =
        Inr (TUnion (if \<forall>s \<in> set (first_seen ct [] ts). unionable s then Pep604 else TypingUnion)
               (first_seen ct [] ts)))"
proof -
  have general: "\<exists>s rest. first_seen ct [] ts = s # rest \<and> unionize ct ts = or_all s rest"
    if "ts \<noteq> []"
  proof -
    from that obtain t ts' where ts: "ts = t # ts'" by (cases ts) auto
    then obtain rest where fs: "first_seen ct [] ts = t # rest" by simp
    have "unionize ct ts = or_all t rest"
      using that fs by (cases rest) (simp_all add: unionize_def unique_by_text_first_seen)
    with fs show ?thesis by blast
  qed
  have single: "unionize ct ts = Inr s" if "first_seen ct [] ts = [s]"
    using that by (cases ts) (auto simp: unionize_def unique_by_text_first_seen)
  have many: "unionize ct ts =
        Inr (TUnion (if \<forall>s \<in> set (first_seen ct [] ts). unionable s then Pep604 else TypingUnion)
               (first_seen ct [] ts))"
    if "2 \<le> length (first_seen ct [] ts)" "eq_free (first_seen ct [] ts)"
      "\<forall>s \<in> set (first_seen ct [] ts). \<not> is_union s \<and> (unionable s \<or> typing_operand s)"
  proof -
    from that(1) obtain a b rest where fs: "first_seen ct [] ts = a # b # rest"
      by (cases "first_seen ct [] ts"; cases "tl (first_seen ct [] ts)") auto
    then have "ts \<noteq> []" by auto
    then have "unionize ct ts = or_all a (b # rest)"
      using fs by (simp add: unionize_def unique_by_text_first_seen)
    then show ?thesis
      using or_all_distinct [of a b rest] that(2,3) unfolding fs by simp
  qed
  show ?thesis
    using general single many by (simp add: unionize_def)
qed

theorem unionize_first_seen_witness:
  "[TClass CInt, TClass CStr, TClass CInt] \<noteq> [] \<and>
   first_seen example_classes [] [TClass CInt, TClass CStr, TClass CInt] = [TClass CInt, TClass CStr] \<and>
   2 \<le> length (first_seen example_classes [] [TClass CInt, TClass CStr, TClass CInt]) \<and>
   eq_free (first_seen example_classes [] [TClass CInt, TClass CStr, TClass CInt]) \<and>
   unionize example_classes [TClass CInt, TClass CStr, TClass CInt]
     = Inr (TUnion Pep604 [TClass CInt, TClass CStr]) \<and>
   first_seen example_classes [] [TClass CInt, TClass CInt] = [TClass CInt] \<and>
   unionize example_classes [TClass CInt, TClass CInt] = Inr (TClass CInt)"
  using unionize_first_seen [of example_classes "[TClass CInt, TClass CStr, TClass CInt]"]
    unionize_first_seen [of example_classes "[TClass CInt, TClass CInt]" "TClass CInt"]
  by (simp add: py_or_def)

text \<open>
  The claim as stated fails when two survivors print differently and are equal as type
  objects: \<^verbatim>\<open>list[int | str]\<close> and \<^verbatim>\<open>list[str | int]\<close> both survive, and \<^verbatim>\<open>|\<close> returns the
  first of them instead of a union.  The inference meets this case for the value
  \<^verbatim>\<open>[[1, "a"], ["a", 1]]\<close>.
\<close>

definition list_int_or_str :: tspec where
  "list_int_or_str = TAlias CList [TUnion Pep604 [TClass CInt, TClass CStr]]"
definition list_str_or_int :: tspec where
  "list_str_or_int = TAlias CList [TUnion Pep604 [TClass CStr, TClass CInt]]"

theorem unionize_equal_survivors_counterexample:
  "first_seen example_classes [] [list_int_or_str, list_str_or_int] = [list_int_or_str, list_str_or_int] \<and>
   unionize example_classes [list_int_or_str, list_str_or_int] = Inr list_int_or_str \<and>
   infer_type_spec_from_value example_classes
     (VList [VList [VInt 1, VStr ''a''], VList [VStr ''a'', VInt 1]]) = Inr (TAlias CList [list_int_or_str])"
  by (simp add: list_int_or_str_def list_str_or_int_def unionize_def unique_by_text_def dict_setdefault_def
      py_repr_def py_or_def)


section \<open>Parameterized dataclasses\<close>


lemma dict_set_fresh: "k \<notin> fst ` set d \<Longrightarrow> dict_set d k v = d @ [(k, v)]"
  by (induction d) auto

lemma fold_dict_set_zip:
  "distinct ps \<Longrightarrow> set ps \<inter> fst ` set acc = {} \<Longrightarrow>
   fold (\<lambda>(type_var, concrete) d. dict_set d type_var concrete) (zip ps as) acc = acc @ zip ps as"
proof (induction ps arbitrary: as acc)
  case Nil
  then show ?case by simp
next
  case (Cons p ps)
  show ?case
  proof (cases as)
    case Nil
    then show ?thesis by simp
  next
    case (Cons a as')
    have "dict_set acc p a = acc @ [(p, a)]"
      using Cons.prems by (intro dict_set_fresh) auto
    moreover have "fold (\<lambda>(type_var, concrete) d. dict_set d type_var concrete) (zip ps as') (acc @ [(p, a)])
        = (acc @ [(p, a)]) @ zip ps as'"
      using Cons.prems by (intro Cons.IH) auto
    ultimately show ?thesis using Cons by simp
  qed
qed

lemma bind_type_variables_zip:
  "distinct (class_parameters ct c) \<Longrightarrow>
   bind_type_variables_for_generic ct c args = zip (class_parameters ct c) args"
  using fold_dict_set_zip [of "class_parameters ct c" "[]" args]
  by (cases "class_parameters ct c") (simp_all add: bind_type_variables_for_generic_def Let_def)

lemma map_of_zip_nth:
  "distinct ps \<Longrightarrow> i < length ps \<Longrightarrow> i < length as \<Longrightarrow> map_of (zip ps as) (ps ! i) = Some (as ! i)"
proof (induction ps arbitrary: as i)
  case Nil
  then show ?case by simp
next
  case (Cons p ps)
  then show ?case
    by (cases as; cases i) (auto simp: nth_eq_iff_index_eq)
qed


text \<open>
  Substitution in the words of the specification: every type variable that has a binding
  is replaced by it, also inside the arguments of an alias and the members of a union;
  every other object stays as it is.
\<close>

fun subst :: "(string \<Rightarrow> tspec option) \<Rightarrow> tspec \<Rightarrow> tspec" where
  "subst \<sigma> (TTypeVar n) = (case \<sigma> n of None \<Rightarrow> TTypeVar n | Some t \<Rightarrow> t)"
| "subst \<sigma> (TAlias origin args) = TAlias origin (map (subst \<sigma>) args)"
| "subst \<sigma> (TUnion k args) = TUnion k (map (subst \<sigma>) args)"
| "subst \<sigma> t = t"

text \<open>No union stands in the type, at any depth of its aliases.\<close>

fun union_free :: "tspec \<Rightarrow> bool" where
  "union_free (TUnion k args) = False"
| "union_free (TAlias origin args) = (\<forall>a \<in> set args. union_free a)"
| "union_free t = True"

lemma map_m_map: "\<forall>x \<in> set xs. f x = Inr (g x) \<Longrightarrow> map_m f xs = Inr (map g xs)"
  by (induction xs) auto

lemma substitute_union_free:
  "union_free t \<Longrightarrow> substitute_type_variables t m = Inr (subst (map_of m) t)"
proof (induction t m rule: substitute_type_variables.induct)
  case (4 origin args mapping)
  show ?case
  proof (cases "args = []")
    case True
    then show ?thesis by simp
  next
    case False
    have "\<forall>a \<in> set args. substitute_type_variables a mapping = Inr (subst (map_of mapping) a)"
      using 4 False by auto
    then have "map_m (\<lambda>a. substitute_type_variables a mapping) args
        = Inr (map (subst (map_of mapping)) args)"
      by (rule map_m_map)
    then show ?thesis using False by simp
  qed
qed auto

lemma substitute_union:
  assumes "us \<noteq> []" "\<forall>a \<in> set us. union_free a"
  shows "substitute_type_variables (TUnion k us) m =
     or_all (subst (map_of m) (hd us)) (map (subst (map_of m)) (tl us))"
proof -
  have "map_m (\<lambda>a. substitute_type_variables a m) us = Inr (map (subst (map_of m)) us)"
    using assms(2) by (intro map_m_map) (auto simp: substitute_union_free)
  then show ?thesis using assms(1) by (cases us) auto
qed

lemma substitute_union_distinct:
  assumes "2 \<le> length us" "\<forall>a \<in> set us. union_free a"
    "eq_free (map (subst (map_of m)) us)"
    "\<forall>s \<in> set (map (subst (map_of m)) us). \<not> is_union s \<and> (unionable s \<or> typing_operand s)"
  shows "substitute_type_variables (TUnion k us) m =
     Inr (TUnion (if \<forall>s \<in> set (map (subst (map_of m)) us). unionable s then Pep604 else TypingUnion)
            (map (subst (map_of m)) us))"
proof -
  from assms(1) obtain a b rest where us: "us = a # b # rest"
    by (cases us; cases "tl us") auto
  let ?f = "subst (map_of m)"
  have "substitute_type_variables (TUnion k us) m = or_all (?f a) (?f b # map ?f rest)"
    using substitute_union [of us k m] assms(2) us by simp
  also have "\<dots> = Inr (TUnion (if \<forall>s \<in> set (?f a # ?f b # map ?f rest). unionable s
                                 then Pep604 else TypingUnion) (?f a # ?f b # map ?f rest))"
    using assms(3,4) unfolding us by (intro or_all_distinct) simp_all
  finally show ?thesis unfolding us by simp
qed

lemma substitute_alias:
  "map_m (\<lambda>a. substitute_type_variables a m) as = Inr ts \<Longrightarrow>
   substitute_type_variables (TAlias origin as) m = Inr (TAlias origin ts)"
  by (cases as) (auto split: sum.splits)


text \<open>An instance of \<^verbatim>\<open>Shelf\<close> with the three fields set.\<close>

definition shelf :: "pval \<Rightarrow> pval \<Rightarrow> pval \<Rightarrow> pval" where
  "shelf items spare inner = VObj 5 [(''items'', items), (''spare'', spare), (''inner'', inner)]"

text \<open>
  C5.  Against \<^verbatim>\<open>C[args]\<close> for a generic dataclass \<open>C\<close>, the matcher first checks the
  class of the value; then every field of \<open>C\<close> that has an annotation is matched against
  the annotation in which the declared type variables are replaced by the arguments at
  the same positions (the i-th type variable by the i-th argument).  The replacement
  reaches into the annotation: an annotation without unions becomes its substitution
  \<open>subst\<close>; an alias keeps its origin and takes the substituted arguments; and a union is
  rebuilt from its substituted members with \<^verbatim>\<open>|\<close>, which gives the union of the substituted
  members when these are distinct types that are no unions.  So \<^verbatim>\<open>list[T]\<close>,
  \<^verbatim>\<open>Optional[T]\<close> and \<^verbatim>\<open>Box[T]\<close> become \<^verbatim>\<open>list[int]\<close>, \<^verbatim>\<open>int | None\<close> and \<^verbatim>\<open>Box[int]\<close> under
  the binding of \<open>T\<close> to \<^verbatim>\<open>int\<close>.  For \<^verbatim>\<open>Box\<close>, whose field \<^verbatim>\<open>value\<close> is annotated with \<open>T\<close>:
  \<^verbatim>\<open>Box[t]\<close> accepts an instance exactly as \<open>t\<close> accepts its value, so \<^verbatim>\<open>Box[int]\<close> accepts
  the value 5 and rejects the value "5".  For \<^verbatim>\<open>Shelf\<close>, \<^verbatim>\<open>Shelf[int]\<close> accepts the instance
  with the items \<^verbatim>\<open>[1, 2]\<close>, no spare and the inner \<^verbatim>\<open>Box(3)\<close>, and rejects an instance with
  a text among the items, with a text as spare, or with a text in the inner box.
\<close>

theorem generic_field_substitution:
  "(cdataclass (ct c) \<and> distinct (cparams (ct c)) \<and> cparams (ct c) \<noteq> [] \<and> args \<noteq> [] \<longrightarrow>
     matches ct v (TAlias (CUser c) args) =
       (case isinstance ct v (CUser c) of
          Inl e \<Rightarrow> Inl e
        | Inr b \<Rightarrow>
            if \<not> b then Inr False
            else
              (case get_type_hints ct (CUser c) of
                 Inl e \<Rightarrow> Inl e
               | Inr hints \<Rightarrow>
                   all_m
                     (\<lambda>field.
                        case map_of hints field of
                          None \<Rightarrow> Inr True
                        | Some declared \<Rightarrow>
                            (case substitute_type_variables declared (zip (cparams (ct c)) args) of
                               Inl e \<Rightarrow> Inl e
                             | Inr concrete \<Rightarrow>
                                 (case getattr v field of
                                    Inl e \<Rightarrow> Inl e
                                  | Inr x \<Rightarrow> matches ct x concrete)))
                     (cfields (ct c))))) \<and>
   (distinct ps \<and> i < length ps \<and> i < length args \<longrightarrow>
     substitute_type_variables (TTypeVar (ps ! i)) (zip ps args) = Inr (args ! i)) \<and>
   (union_free t \<longrightarrow> substitute_type_variables t m = Inr (subst (map_of m) t)) \<and>
   (map_m (\<lambda>a. substitute_type_variables a m) as = Inr ts \<longrightarrow>
     substitute_type_variables (TAlias origin as) m = Inr (TAlias origin ts)) \<and>
   (us \<noteq> [] \<and> (\<forall>a \<in> set us. union_free a) \<longrightarrow>
     substitute_type_variables (TUnion k us) m =
       or_all (subst (map_of m) (hd us)) (map (subst (map_of m)) (tl us))) \<and>
   (2 \<le> length us \<and> (\<forall>a \<in> set us. union_free a) \<and> eq_free (map (subst (map_of m)) us) \<and>
    (\<forall>s \<in> set (map (subst (map_of m)) us). \<not> is_union s \<and> (unionable s \<or> typing_operand s)) \<longrightarrow>
     substitute_type_variables (TUnion k us) m =
       Inr (TUnion (if \<forall>s \<in> set (map (subst (map_of m)) us). unionable s then Pep604 else TypingUnion)
              (map (subst (map_of m)) us))) \<and>
   substitute_type_variables (TAlias CList [TTypeVar ''T'']) [(''T'', TClass CInt)]
     = Inr (TAlias CList [TClass CInt]) \<and>
   substitute_type_variables (TUnion TypingUnion [TTypeVar ''T'', TClass CNoneType]) [(''T'', TClass CInt)]
     = Inr (TUnion Pep604 [TClass CInt, TClass CNoneType]) \<and>
   substitute_type_variables (TAlias (CUser 0) [TTypeVar ''T'']) [(''T'', TClass CInt)]
     = Inr (TAlias (CUser 0) [TClass CInt]) \<and>
   matches example_classes (VObj 0 [(''value'', x)]) (TAlias (CUser 0) [d]) = matches example_classes x d \<and>
   matches example_classes (VObj 0 [(''value'', VInt 5)]) (TAlias (CUser 0) [TClass CInt]) = Inr True \<and>
   matches example_classes (VObj 0 [(''value'', VStr ''5'')]) (TAlias (CUser 0) [TClass CInt]) = Inr False \<and>
   matches example_classes (shelf (VList [VInt 1, VInt 2]) VNone (VObj 0 [(''value'', VInt 3)]))
     (TAlias (CUser 5) [TClass CInt]) = Inr True \<and>
   matches example_classes (shelf (VList [VInt 1, VStr ''a'']) VNone (VObj 0 [(''value'', VInt 3)]))
     (TAlias (CUser 5) [TClass CInt]) = Inr False \<and>
   matches example_classes (shelf (VList [VInt 1, VInt 2]) (VStr ''a'') (VObj 0 [(''value'', VInt 3)]))
     (TAlias (CUser 5) [TClass CInt]) = Inr False \<and>
   matches example_classes (shelf (VList [VInt 1, VInt 2]) (VInt 7) (VObj 0 [(''value'', VStr ''a'')]))
     (TAlias (CUser 5) [TClass CInt]) = Inr False"
proof -
  have general: "matches ct v (TAlias (CUser c) args) =
       (case isinstance ct v (CUser c) of
          Inl e \<Rightarrow> Inl e
        | Inr b \<Rightarrow>
            if \<not> b then Inr False
            else
              (case get_type_hints ct (CUser c) of
                 Inl e \<Rightarrow> Inl e
               | Inr hints \<Rightarrow>
                   all_m
                     (\<lambda>field.
                        case map_of hints field of
                          None \<Rightarrow> Inr True
                        | Some declared \<Rightarrow>
                            (case substitute_type_variables declared (zip (cparams (ct c)) args) of
                               Inl e \<Rightarrow> Inl e
                             | Inr concrete \<Rightarrow>
                                 (case getattr v field of
                                    Inl e \<Rightarrow> Inl e
                                  | Inr x \<Rightarrow> matches ct x concrete)))
                     (cfields (ct c))))"
    if "cdataclass (ct c)" "distinct (cparams (ct c))" "cparams (ct c) \<noteq> []" "args \<noteq> []"
  proof -
    have "bind_type_variables_for_generic ct (CUser c) args = zip (cparams (ct c)) args"
      using that bind_type_variables_zip [of ct "CUser c" args] by simp
    moreover have "(zip (cparams (ct c)) args \<noteq> []) = True"
      using that by (cases "cparams (ct c)"; cases args) auto
    ultimately show ?thesis
      using that
      by (cases "isinstance ct v (CUser c)"; cases "chints_error (ct c)")
        (simp_all add: matches_TAlias cong: option.case_cong)
  qed
  have tv: "substitute_type_variables (TTypeVar (ps ! i)) (zip ps args) = Inr (args ! i)"
    if "distinct ps" "i < length ps" "i < length args"
    using that by (simp add: map_of_zip_nth)
  have ex1: "substitute_type_variables (TAlias CList [TTypeVar ''T'']) [(''T'', TClass CInt)]
     = Inr (TAlias CList [TClass CInt])"
    by simp
  have ex2: "substitute_type_variables (TUnion TypingUnion [TTypeVar ''T'', TClass CNoneType])
       [(''T'', TClass CInt)] = Inr (TUnion Pep604 [TClass CInt, TClass CNoneType])"
    by (simp add: py_or_def)
  have ex3: "substitute_type_variables (TAlias (CUser 0) [TTypeVar ''T'']) [(''T'', TClass CInt)]
     = Inr (TAlias (CUser 0) [TClass CInt])"
    by simp
  have box: "matches example_classes (VObj 0 [(''value'', x)]) (TAlias (CUser 0) [d]) = matches example_classes x d"
    for x d
    by (simp add: matches_TAlias isinstance_def example_defs bind_type_variables_for_generic_def
        split: sum.splits)
  have box5: "matches example_classes (VObj 0 [(''value'', VInt 5)]) (TAlias (CUser 0) [TClass CInt]) = Inr True"
    "matches example_classes (VObj 0 [(''value'', VStr ''5'')]) (TAlias (CUser 0) [TClass CInt]) = Inr False"
    by (simp_all add: box matches_TClass isinstance_def example_defs)
  have shelf: "matches example_classes (shelf items spare inner) (TAlias (CUser 5) [TClass CInt]) =
      (case matches example_classes items (TAlias CList [TClass CInt]) of
         Inl e \<Rightarrow> Inl e
       | Inr b \<Rightarrow>
           if \<not> b then Inr False
           else (case matches example_classes spare (TUnion Pep604 [TClass CInt, TClass CNoneType]) of
                   Inl e \<Rightarrow> Inl e
                 | Inr b \<Rightarrow>
                     if \<not> b then Inr False
                     else (case matches example_classes inner (TAlias (CUser 0) [TClass CInt]) of
                             Inl e \<Rightarrow> Inl e
                           | Inr b \<Rightarrow> Inr b)))"
    for items spare inner
    by (simp add: shelf_def matches_TAlias isinstance_def example_defs
        bind_type_variables_for_generic_def py_or_def split: sum.splits)
  have m: "matches example_classes (VInt n) (TClass CInt) = Inr True"
    "matches example_classes (VStr s) (TClass CInt) = Inr False"
    "matches example_classes VNone (TClass CInt) = Inr False"
    "matches example_classes VNone (TClass CNoneType) = Inr True"
    "matches example_classes (VStr s) (TClass CNoneType) = Inr False" for n s
    by (simp_all add: matches_TClass isinstance_def)
  have l: "matches example_classes (VList [VInt 1, VInt 2]) (TAlias CList [TClass CInt]) = Inr True"
    "matches example_classes (VList [VInt 1, VStr ''a'']) (TAlias CList [TClass CInt]) = Inr False"
    by (simp_all add: matches_TAlias m)
  have s1: "matches example_classes (shelf (VList [VInt 1, VInt 2]) VNone (VObj 0 [(''value'', VInt 3)]))
     (TAlias (CUser 5) [TClass CInt]) = Inr True"
    by (simp add: shelf box l m)
  have s2: "matches example_classes (shelf (VList [VInt 1, VStr ''a'']) VNone (VObj 0 [(''value'', VInt 3)]))
     (TAlias (CUser 5) [TClass CInt]) = Inr False"
    by (simp add: shelf box l m)
  have s3: "matches example_classes (shelf (VList [VInt 1, VInt 2]) (VStr ''a'') (VObj 0 [(''value'', VInt 3)]))
     (TAlias (CUser 5) [TClass CInt]) = Inr False"
    by (simp add: shelf box l m)
  have s4: "matches example_classes (shelf (VList [VInt 1, VInt 2]) (VInt 7) (VObj 0 [(''value'', VStr ''a'')]))
     (TAlias (CUser 5) [TClass CInt]) = Inr False"
    by (simp add: shelf box l m)
  show ?thesis
    using general tv substitute_union_free [of t m] substitute_alias [of m as ts origin]
      substitute_union [of us k m] substitute_union_distinct [of us m k]
      ex1 ex2 ex3 box [of x d] box5 s1 s2 s3 s4
    by blast
qed


theorem generic_field_substitution_witness:
  "cdataclass (example_classes 0) \<and> distinct (cparams (example_classes 0)) \<and>
   cparams (example_classes 0) \<noteq> [] \<and> [TClass CInt] \<noteq> [] \<and>
   isinstance example_classes (VObj 0 [(''value'', VInt 5)]) (CUser 0) = Inr True \<and>
   get_type_hints example_classes (CUser 0) = Inr [(''value'', TTypeVar ''T'')] \<and>
   matches example_classes (VObj 0 [(''value'', VInt 5)]) (TAlias (CUser 0) [TClass CInt]) = Inr True \<and>
   distinct [''T''] \<and> (0 :: nat) < length [''T''] \<and>
   substitute_type_variables (TTypeVar ([''T''] ! 0)) (zip [''T''] [TClass CInt])
     = Inr ([TClass CInt] ! 0) \<and>
   union_free (TAlias CDict [TClass CStr, TAlias CList [TTypeVar ''T'']]) \<and>
   substitute_type_variables (TAlias CDict [TClass CStr, TAlias CList [TTypeVar ''T'']])
       [(''T'', TClass CInt)]
     = Inr (TAlias CDict [TClass CStr, TAlias CList [TClass CInt]]) \<and>
   map_m (\<lambda>a. substitute_type_variables a [(''T'', TClass CInt)]) [TTypeVar ''T'']
     = Inr [TClass CInt] \<and>
   substitute_type_variables (TAlias (CUser 0) [TTypeVar ''T'']) [(''T'', TClass CInt)]
     = Inr (TAlias (CUser 0) [TClass CInt]) \<and>
   [TTypeVar ''T'', TClass CNoneType] \<noteq> [] \<and>
   2 \<le> length [TTypeVar ''T'', TClass CNoneType] \<and>
   union_free (TTypeVar ''T'') \<and> union_free (TClass CNoneType) \<and>
   map (subst (map_of [(''T'', TClass CInt)])) [TTypeVar ''T'', TClass CNoneType]
     = [TClass CInt, TClass CNoneType] \<and>
   eq_free [TClass CInt, TClass CNoneType] \<and>
   substitute_type_variables (TUnion TypingUnion [TTypeVar ''T'', TClass CNoneType])
       [(''T'', TClass CInt)]
     = Inr (TUnion Pep604 [TClass CInt, TClass CNoneType])"
  using generic_field_substitution [where ct = example_classes and c = 0 and args = "[TClass CInt]"
      and v = "VObj 0 [(''value'', VInt 5)]" and ps = "[''T'']" and i = 0
      and t = "TAlias CDict [TClass CStr, TAlias CList [TTypeVar ''T'']]"
      and m = "[(''T'', TClass CInt)]" and as = "[TTypeVar ''T'']" and ts = "[TClass CInt]"
      and origin = "CUser 0" and us = "[TTypeVar ''T'', TClass CNoneType]" and k = TypingUnion]
  by (simp add: example_defs isinstance_def matches_TClass)


section \<open>Totality of the matcher\<close>















































end
